theory Spec2Isabelle
  imports Main "HOL-Library.Word"
begin

unbundle bit_operations_syntax

section \<open>Values, errors and outcomes\<close>

text \<open>
  The program is \<^verbatim>\<open>src/act_ws.py\<close>, a Python 3 module (it uses f-strings and
  \<^verbatim>\<open>super()\<close> without arguments). A \<^verbatim>\<open>bytes\<close> or \<^verbatim>\<open>bytearray\<close> object is a
  list of 8-bit words; iterating one yields Python ints in \<open>0..255\<close>, which are modelled
  by the same 8-bit words. Lengths, opcodes and status codes are Python ints.
\<close>

type_synonym byte = "8 word"

text \<open>
  A value that is either \<^verbatim>\<open>str\<close> or \<^verbatim>\<open>bytes\<close>/\<^verbatim>\<open>bytearray\<close>. A \<^verbatim>\<open>str\<close> is
  represented by its UTF-8 encoding, so \<^verbatim>\<open>s.encode('utf-8')\<close> is the carried list and a
  successful strict \<^verbatim>\<open>b.decode('utf8')\<close> of \<open>b\<close> is \<open>PyStr b\<close>.
\<close>

datatype pydata = PyStr "byte list" | PyBytes "byte list"

text \<open>\<^verbatim>\<open>_check_unicode(val)\<close>: \<^verbatim>\<open>isinstance(val, str)\<close>.\<close>

fun check_unicode :: "pydata \<Rightarrow> bool" where
  "check_unicode (PyStr _) = True"
| "check_unicode (PyBytes _) = False"

fun raw_bytes :: "pydata \<Rightarrow> byte list" where
  "raw_bytes (PyStr bs) = bs"
| "raw_bytes (PyBytes bs) = bs"

text \<open>Every exception the modelled code raises, one constructor per \<^verbatim>\<open>raise\<close> site or
  library exception.\<close>

datatype error =
    RemoteSocketClosed
  | HeaderExceeded
  | HandshakeFailed
  | RequestCrashed
  | RecvFailed
  | TypeError
  | RsvBitSet
  | PingTooLarge
  | ShortLengthExceeded
  | LongLengthExceeded
  | MaskExceeded
  | PayloadExceeded
  | IndexError
  | AttributeError
  | ControlFrameTooLong
  | UnknownOpcode
  | ControlFragmented
  | FragmentationError
  | InvalidUtf8Payload
  | UnicodeDecodeError
  | StructError
  | ValueError
  | SocketBroken
  | SocketError
  | ReceivedClientClose

text \<open>
  A method either returns or raises; in both cases the object has been mutated, so both
  outcomes carry the state reached.
\<close>

datatype 's outcome = Return 's | Raise error 's

fun st :: "'s outcome \<Rightarrow> 's" where
  "st (Return s) = s"
| "st (Raise e s) = s"

fun raised :: "'s outcome \<Rightarrow> error option" where
  "raised (Return s) = None"
| "raised (Raise e s) = Some e"

text \<open>\<^verbatim>\<open>try: ... finally: f\<close>: the finaliser runs on both outcomes and an exception
  continues to propagate.\<close>

fun try_finally :: "'s outcome \<Rightarrow> ('s \<Rightarrow> 's) \<Rightarrow> 's outcome" where
  "try_finally (Return s) f = Return (f s)"
| "try_finally (Raise e s) f = Raise e (f s)"

text \<open>A \<^verbatim>\<open>for x in xs: body\<close> loop whose body may raise: the first exception leaves the
  loop.\<close>

fun for_each :: "('s \<Rightarrow> 'a \<Rightarrow> 's outcome) \<Rightarrow> 's \<Rightarrow> 'a list \<Rightarrow> 's outcome" where
  "for_each body s [] = Return s"
| "for_each body s (x # xs) =
     (case body s x of
        Raise e s' \<Rightarrow> Raise e s'
      | Return s' \<Rightarrow> for_each body s' xs)"

section \<open>Constants\<close>

definition VALID_STATUS_CODES :: "nat list" where
  "VALID_STATUS_CODES =
     [1000, 1001, 1002, 1003, 1007, 1008, 1009, 1010, 1011, 3000, 3999, 4000, 4999]"

definition STREAM :: nat where "STREAM = 0x0"
definition TEXT :: nat where "TEXT = 0x1"
definition BINARY :: nat where "BINARY = 0x2"
definition CLOSE :: nat where "CLOSE = 0x8"
definition PING :: nat where "PING = 0x9"
definition PONG :: nat where "PONG = 0xA"

lemmas opcode_defs = STREAM_def TEXT_def BINARY_def CLOSE_def PING_def PONG_def

datatype pstate = HEADERB1 | HEADERB2 | LENGTHSHORT | LENGTHLONG | MASK | PAYLOAD

definition MAXHEADER :: nat where "MAXHEADER = 65536"
definition MAXPAYLOAD :: nat where "MAXPAYLOAD = 33554432"

section \<open>The connection object\<close>

text \<open>
  The fields of \<^verbatim>\<open>WebSocket\<close> that the protocol engine reads or writes. \<^verbatim>\<open>maskarray\<close>
  and \<^verbatim>\<open>lengtharray\<close> start as \<^verbatim>\<open>None\<close> and are assigned a fresh \<^verbatim>\<open>bytearray()\<close>
  before the parser first appends to them; \<^verbatim>\<open>None\<close> is the empty list here.
  \<^verbatim>\<open>frag_buffer\<close> is \<^verbatim>\<open>None\<close>, a \<^verbatim>\<open>bytearray\<close>, or a list of \<^verbatim>\<open>str\<close> pieces that is
  only ever joined, kept as the concatenation of the pieces. \<^verbatim>\<open>frag_decoder\<close> is the
  incremental UTF-8 decoder, whose state is the bytes of an unfinished character.
  \<^verbatim>\<open>length\<close> is \<open>length_fld\<close>.

  \<open>fed\<close> is a history variable, not a field of the source: the bytes
  \<^verbatim>\<open>_parse_message\<close> has been called with, in call order.
\<close>

record conn =
  handshaked :: bool
  headerbuffer :: "byte list"
  fin :: byte
  data :: "byte list"
  opcode :: nat
  hasmask :: bool
  maskarray :: "byte list"
  length_fld :: nat
  lengtharray :: "byte list"
  index :: nat
  frag_start :: bool
  frag_type :: nat
  frag_buffer :: "byte list option"
  frag_decoder :: "byte list"
  closed :: bool
  sendq :: "(nat \<times> byte list) list"
  state :: pstate
  maxheader :: nat
  maxpayload :: nat
  fed :: "byte list"

text \<open>\<^verbatim>\<open>WebSocket.__init__\<close>.\<close>

definition init_conn :: conn where
  "init_conn = \<lparr> handshaked = False, headerbuffer = [], fin = 0, data = [], opcode = 0,
     hasmask = False, maskarray = [], length_fld = 0, lengtharray = [], index = 0,
     frag_start = False, frag_type = BINARY, frag_buffer = None, frag_decoder = [],
     closed = False, sendq = [], state = HEADERB1, maxheader = MAXHEADER,
     maxpayload = MAXPAYLOAD, fed = [] \<rparr>"

section \<open>The frame encoder\<close>

text \<open>\<^verbatim>\<open>struct.pack("!H", n)\<close> and \<^verbatim>\<open>struct.pack("!Q", n)\<close>: big-endian, and
  \<^verbatim>\<open>struct.error\<close> when the value does not fit.\<close>

fun be_bytes :: "nat \<Rightarrow> nat \<Rightarrow> byte list" where
  "be_bytes 0 n = []"
| "be_bytes (Suc k) n = be_bytes k (n div 256) @ [of_nat (n mod 256)]"

definition pack_H :: "int \<Rightarrow> byte list option" where
  "pack_H n = (if 0 \<le> n \<and> n < 2 ^ 16 then Some (be_bytes 2 (nat n)) else None)"

definition pack_Q :: "int \<Rightarrow> byte list option" where
  "pack_Q n = (if 0 \<le> n \<and> n < 2 ^ 64 then Some (be_bytes 8 (nat n)) else None)"

text \<open>\<^verbatim>\<open>struct.unpack_from('!H', b)[0]\<close> and \<^verbatim>\<open>'!Q'\<close>: the big-endian value of the
  bytes.\<close>

definition be_nat :: "byte list \<Rightarrow> nat" where
  "be_nat bs = foldl (\<lambda>acc b. acc * 256 + unat b) 0 bs"

text \<open>
  \<^verbatim>\<open>_send_message(fin, opcode, data)\<close>. The parameter \<^verbatim>\<open>fin\<close> is \<^verbatim>\<open>False\<close> for a final
  frame: \<^verbatim>\<open>send_message\<close> and \<^verbatim>\<open>send_fragment_end\<close> pass \<^verbatim>\<open>False\<close>,
  \<^verbatim>\<open>send_fragment_start\<close> and \<^verbatim>\<open>send_fragment\<close> pass \<^verbatim>\<open>True\<close>, and the FIN bit
  \<open>0x80\<close> is set when \<^verbatim>\<open>fin is False\<close>. \<^verbatim>\<open>bytearray.append\<close> raises \<^verbatim>\<open>ValueError\<close> for
  a value outside \<open>0..255\<close>. \<open>encode_frame\<close> is the local \<^verbatim>\<open>payload\<close> bytearray.
\<close>

definition encode_frame :: "bool \<Rightarrow> nat \<Rightarrow> byte list \<Rightarrow> error + byte list" where
  "encode_frame fin_arg opc bs =
     (let b1 = (if fin_arg = False then 0x80 else 0) OR opc;
          len = length bs
      in if \<not> b1 < 256 then Inl ValueError
         else if len \<le> 125 then Inr ([of_nat b1, of_nat len] @ bs)
         else if 126 \<le> len \<and> len \<le> 65535 then
           (case pack_H (int len) of
              None \<Rightarrow> Inl StructError
            | Some l \<Rightarrow> Inr ([of_nat b1, 126] @ l @ bs))
         else
           (case pack_Q (int len) of
              None \<Rightarrow> Inl StructError
            | Some l \<Rightarrow> Inr ([of_nat b1, 127] @ l @ bs)))"

definition send_message :: "conn \<Rightarrow> bool \<Rightarrow> nat \<Rightarrow> pydata \<Rightarrow> conn outcome" where
  "send_message s fin_arg opc d =
     (case encode_frame fin_arg opc (raw_bytes d) of
        Inl e \<Rightarrow> Raise e s
      | Inr payload \<Rightarrow> Return (s\<lparr>sendq := sendq s @ [(opc, payload)]\<rparr>))"

section \<open>Closing\<close>

text \<open>\<^verbatim>\<open>WebSocket.close(status, reason)\<close>: the frame is built and queued only while
  \<^verbatim>\<open>closed\<close> is \<^verbatim>\<open>False\<close>; the \<^verbatim>\<open>finally\<close> clause sets \<^verbatim>\<open>closed\<close>.\<close>

definition close :: "conn \<Rightarrow> int \<Rightarrow> pydata \<Rightarrow> conn outcome" where
  "close s status reason =
     try_finally
       (if closed s = False then
          (case pack_H status of
             None \<Rightarrow> Raise StructError s
           | Some st_bytes \<Rightarrow>
               send_message s False CLOSE (PyBytes (st_bytes @ raw_bytes reason)))
        else Return s)
       (\<lambda>s'. s'\<lparr>closed := True\<rparr>)"

section \<open>Strict UTF-8 decoding\<close>

text \<open>
  Python's strict UTF-8 codec accepts exactly the well-formed byte sequences of the
  Unicode standard (no overlong forms, no surrogates, nothing above \<open>U+10FFFF\<close>).
  \<open>seq_len\<close> is the length announced by a lead byte (0 for a byte that cannot lead),
  \<open>second_ok\<close> the range of the byte after it, \<open>seq_ok\<close> the check of the bytes of one
  sequence that are present.
\<close>

definition cont_byte :: "byte \<Rightarrow> bool" where
  "cont_byte b \<longleftrightarrow> 0x80 \<le> b \<and> b \<le> 0xBF"

definition seq_len :: "byte \<Rightarrow> nat" where
  "seq_len b =
     (if b \<le> 0x7F then 1
      else if 0xC2 \<le> b \<and> b \<le> 0xDF then 2
      else if 0xE0 \<le> b \<and> b \<le> 0xEF then 3
      else if 0xF0 \<le> b \<and> b \<le> 0xF4 then 4
      else 0)"

definition second_ok :: "byte \<Rightarrow> byte \<Rightarrow> bool" where
  "second_ok b0 b1 =
     (if b0 = 0xE0 then 0xA0 \<le> b1 \<and> b1 \<le> 0xBF
      else if b0 = 0xED then 0x80 \<le> b1 \<and> b1 \<le> 0x9F
      else if b0 = 0xF0 then 0x90 \<le> b1 \<and> b1 \<le> 0xBF
      else if b0 = 0xF4 then 0x80 \<le> b1 \<and> b1 \<le> 0x8F
      else cont_byte b1)"

fun seq_ok :: "byte list \<Rightarrow> bool" where
  "seq_ok [] = True"
| "seq_ok [b0] = (seq_len b0 \<noteq> 0)"
| "seq_ok (b0 # b1 # bs) = (seq_len b0 \<noteq> 0 \<and> second_ok b0 b1 \<and> list_all cont_byte bs)"

text \<open>
  The two bytes \<open>0xED 0xA0..0xBF\<close>, the start of an encoded surrogate. No third byte
  completes them, but the decoder reports them only when that byte has arrived or the
  input is final; as the last two bytes of a non-final input they are kept pending.
\<close>

fun truncated_surrogate :: "byte list \<Rightarrow> bool" where
  "truncated_surrogate [b0, b1] = (b0 = 0xED \<and> 0xA0 \<le> b1 \<and> b1 \<le> 0xBF)"
| "truncated_surrogate _ = False"

text \<open>
  \<^verbatim>\<open>codecs.utf_8_decode(bs, 'strict', final)\<close>: the number of bytes consumed, or
  \<open>None\<close> for \<^verbatim>\<open>UnicodeDecodeError\<close>. When \<open>final\<close> is false an unfinished last sequence
  is left unconsumed if its bytes are well-formed so far or are a truncated surrogate.
\<close>

fun utf_8_decode :: "byte list \<Rightarrow> bool \<Rightarrow> nat option" where
  "utf_8_decode [] final = Some 0"
| "utf_8_decode (b0 # rest) final =
     (let n = seq_len b0
      in if n = 0 then None
         else if n \<le> Suc (length rest) then
           (if seq_ok (b0 # take (n - 1) rest)
            then map_option (\<lambda>k. n + k) (utf_8_decode (drop (n - 1) rest) final)
            else None)
         else if final then None
         else if seq_ok (b0 # rest) \<or> truncated_surrogate (b0 # rest) then Some 0
         else None)"

text \<open>\<^verbatim>\<open>bs.decode('utf8', errors='strict')\<close> succeeds.\<close>

definition utf8_strict :: "byte list \<Rightarrow> bool" where
  "utf8_strict bs \<longleftrightarrow> utf_8_decode bs True \<noteq> None"

text \<open>
  \<^verbatim>\<open>frag_decoder.decode(input, final)\<close> of the incremental decoder with buffer
  \<open>pending\<close>: the decoded text and the new buffer, or \<open>None\<close> when it raises (the buffer
  is then unchanged).
\<close>

definition inc_decode :: "byte list \<Rightarrow> byte list \<Rightarrow> bool \<Rightarrow> (byte list \<times> byte list) option" where
  "inc_decode pending input final =
     (let d = pending @ input
      in case utf_8_decode d final of
           None \<Rightarrow> None
         | Some k \<Rightarrow> Some (take k d, drop k d))"

section \<open>Message assembly and control frames\<close>

text \<open>The opcode check at the head of \<^verbatim>\<open>_handle_packet\<close>.\<close>

definition opcode_check :: "conn \<Rightarrow> error option" where
  "opcode_check s =
     (if opcode s = CLOSE then None
      else if opcode s = STREAM then None
      else if opcode s = TEXT then None
      else if opcode s = BINARY then None
      else if opcode s = PONG \<or> opcode s = PING then
        (if length (data s) > 125 then Some ControlFrameTooLong else None)
      else Some UnknownOpcode)"

text \<open>The branch \<^verbatim>\<open>if self.opcode == CLOSE\<close>. When the strict decoding of the reason
  raises, only \<^verbatim>\<open>status\<close> is reassigned and \<^verbatim>\<open>reason\<close> is still the received
  bytearray.\<close>

definition close_status :: "byte list \<Rightarrow> int" where
  "close_status d =
     (let status = be_nat (take 2 d)
      in if status \<notin> set VALID_STATUS_CODES then 1002 else int status)"

definition handle_close_frame :: "conn \<Rightarrow> conn outcome" where
  "handle_close_frame s =
     (let len = length (data s)
      in if len = 0 then close s 1000 (PyStr [])
         else if len \<ge> 2 then
           (let status = close_status (data s);
                reason = drop 2 (data s)
            in if reason \<noteq> [] then
                 (if utf8_strict reason then close s status (PyStr reason)
                  else close s 1002 (PyBytes reason))
               else close s status (PyBytes reason))
         else close s 1002 (PyStr []))"

text \<open>The branch \<^verbatim>\<open>elif self.fin == 0\<close>: a frame of a fragmented message that is not
  the last one.\<close>

definition handle_nonfinal :: "conn \<Rightarrow> conn outcome" where
  "handle_nonfinal s =
     (if opcode s \<noteq> STREAM then
        (if opcode s = PING \<or> opcode s = PONG then Raise ControlFragmented s
         else
           (let s1 = s\<lparr>frag_type := opcode s, frag_start := True, frag_decoder := []\<rparr>
            in if frag_type s1 = TEXT then
                 (case inc_decode (frag_decoder s1) (data s1) False of
                    None \<Rightarrow> Raise UnicodeDecodeError (s1\<lparr>frag_buffer := Some []\<rparr>)
                  | Some (txt, pending) \<Rightarrow>
                      Return (s1\<lparr>frag_buffer := Some txt, frag_decoder := pending\<rparr>))
               else Return (s1\<lparr>frag_buffer := Some (data s1)\<rparr>)))
      else if frag_start s = False then Raise FragmentationError s
      else if frag_type s = TEXT then
        (case inc_decode (frag_decoder s) (data s) False of
           None \<Rightarrow> Raise UnicodeDecodeError s
         | Some (txt, pending) \<Rightarrow>
             (let s1 = s\<lparr>frag_decoder := pending\<rparr>
              in if txt \<noteq> [] then
                   (case frag_buffer s1 of
                      None \<Rightarrow> Raise AttributeError s1
                    | Some buf \<Rightarrow> Return (s1\<lparr>frag_buffer := Some (buf @ txt)\<rparr>))
                 else Return s1))
      else
        (case frag_buffer s of
           None \<Rightarrow> Raise AttributeError s
         | Some buf \<Rightarrow> Return (s\<lparr>frag_buffer := Some (buf @ data s)\<rparr>)))"

text \<open>The last branch of \<^verbatim>\<open>_handle_packet\<close>: a final frame that is not a Close frame.
  \<^verbatim>\<open>handle()\<close> is the application hook, a no-op in \<^verbatim>\<open>WebSocket\<close> and in
  \<^verbatim>\<open>BroadcastHandler\<close>.\<close>

definition handle_final :: "conn \<Rightarrow> conn outcome" where
  "handle_final s =
     (if opcode s = STREAM then
        (if frag_start s = False then Raise FragmentationError s
         else
           (let r = (if frag_type s = TEXT then
                       (case inc_decode (frag_decoder s) (data s) True of
                          None \<Rightarrow> Raise UnicodeDecodeError s
                        | Some (txt, pending) \<Rightarrow>
                            (let s1 = s\<lparr>frag_decoder := pending\<rparr>
                             in case frag_buffer s1 of
                                  None \<Rightarrow> Raise AttributeError s1
                                | Some buf \<Rightarrow>
                                    Return (s1\<lparr>frag_buffer := Some (buf @ txt),
                                               data := buf @ txt\<rparr>)))
                     else
                       (case frag_buffer s of
                          None \<Rightarrow> Raise AttributeError s
                        | Some buf \<Rightarrow>
                            Return (s\<lparr>frag_buffer := Some (buf @ data s),
                                      data := buf @ data s\<rparr>)))
            in case r of
                 Raise e s' \<Rightarrow> Raise e s'
               | Return s' \<Rightarrow>
                   Return (s'\<lparr>frag_decoder := [], frag_type := BINARY,
                              frag_start := False, frag_buffer := None\<rparr>)))
      else if opcode s = PING then send_message s False PONG (PyBytes (data s))
      else if opcode s = PONG then Return s
      else if frag_start s = True then Raise FragmentationError s
      else if opcode s = TEXT then
        (if utf8_strict (data s) then Return s else Raise InvalidUtf8Payload s)
      else Return s)"

text \<open>\<^verbatim>\<open>WebSocket._handle_packet\<close>.\<close>

definition handle_packet :: "conn \<Rightarrow> conn outcome" where
  "handle_packet s =
     (case opcode_check s of
        Some e \<Rightarrow> Raise e s
      | None \<Rightarrow>
          if opcode s = CLOSE then handle_close_frame s
          else if fin s = 0 then handle_nonfinal s
          else handle_final s)"

section \<open>The frame decoder\<close>

text \<open>
  The block \<^verbatim>\<open>try: self._handle_packet() finally: self.state = HEADERB1;
  self.data = bytearray()\<close>, which the parser contains five times.
\<close>

definition dispatch :: "conn \<Rightarrow> conn outcome" where
  "dispatch s = try_finally (handle_packet s) (\<lambda>s'. s'\<lparr>state := HEADERB1, data := []\<rparr>)"

text \<open>The block that follows a completed length field, the same text in the states
  \<open>HEADERB2\<close>, \<open>LENGTHSHORT\<close> and \<open>LENGTHLONG\<close>.\<close>

definition length_complete :: "conn \<Rightarrow> conn outcome" where
  "length_complete s =
     (if hasmask s = True then Return (s\<lparr>maskarray := [], state := MASK\<rparr>)
      else if length_fld s \<le> 0 then dispatch s
      else Return (s\<lparr>data := [], state := PAYLOAD\<rparr>))"

text \<open>\<^verbatim>\<open>WebSocket._parse_message(byte)\<close>, one definition per parser state.\<close>

definition parse_headerb1 :: "conn \<Rightarrow> byte \<Rightarrow> conn outcome" where
  "parse_headerb1 s b =
     (let s1 = s\<lparr>fin := b AND 0x80, opcode := unat (b AND 0x0F), state := HEADERB2,
                index := 0, length_fld := 0, lengtharray := [], data := []\<rparr>
      in if b AND 0x70 \<noteq> 0 then Raise RsvBitSet s1 else Return s1)"

definition parse_headerb2 :: "conn \<Rightarrow> byte \<Rightarrow> conn outcome" where
  "parse_headerb2 s b =
     (let mask = b AND 0x80;
          len = unat (b AND 0x7F)
      in if opcode s = PING \<and> len > 125 then Raise PingTooLarge s
         else
           (let s1 = s\<lparr>hasmask := (mask = 128)\<rparr>
            in if len \<le> 125 then length_complete (s1\<lparr>length_fld := len\<rparr>)
               else if len = 126 then Return (s1\<lparr>lengtharray := [], state := LENGTHSHORT\<rparr>)
               else if len = 127 then Return (s1\<lparr>lengtharray := [], state := LENGTHLONG\<rparr>)
               else Return s1))"

definition parse_lengthshort :: "conn \<Rightarrow> byte \<Rightarrow> conn outcome" where
  "parse_lengthshort s b =
     (let s1 = s\<lparr>lengtharray := lengtharray s @ [b]\<rparr>
      in if length (lengtharray s1) > 2 then Raise ShortLengthExceeded s1
         else if length (lengtharray s1) = 2 then
           length_complete (s1\<lparr>length_fld := be_nat (lengtharray s1)\<rparr>)
         else Return s1)"

definition parse_lengthlong :: "conn \<Rightarrow> byte \<Rightarrow> conn outcome" where
  "parse_lengthlong s b =
     (let s1 = s\<lparr>lengtharray := lengtharray s @ [b]\<rparr>
      in if length (lengtharray s1) > 8 then Raise LongLengthExceeded s1
         else if length (lengtharray s1) = 8 then
           length_complete (s1\<lparr>length_fld := be_nat (lengtharray s1)\<rparr>)
         else Return s1)"

definition parse_mask :: "conn \<Rightarrow> byte \<Rightarrow> conn outcome" where
  "parse_mask s b =
     (let s1 = s\<lparr>maskarray := maskarray s @ [b]\<rparr>
      in if length (maskarray s1) > 4 then Raise MaskExceeded s1
         else if length (maskarray s1) = 4 then
           (if length_fld s1 \<le> 0 then dispatch s1
            else Return (s1\<lparr>data := [], state := PAYLOAD\<rparr>))
         else Return s1)"

text \<open>In the state \<open>PAYLOAD\<close> the subscript \<^verbatim>\<open>self.maskarray[self.index % 4]\<close> raises
  \<^verbatim>\<open>IndexError\<close> on a mask shorter than the index.\<close>

definition parse_payload :: "conn \<Rightarrow> byte \<Rightarrow> conn outcome" where
  "parse_payload s b =
     (if hasmask s = True \<and> \<not> index s mod 4 < length (maskarray s) then Raise IndexError s
      else
        (let s1 = (if hasmask s = True
                   then s\<lparr>data := data s @ [b XOR maskarray s ! (index s mod 4)]\<rparr>
                   else s\<lparr>data := data s @ [b]\<rparr>)
         in if length (data s1) \<ge> maxpayload s1 then Raise PayloadExceeded s1
            else if index s1 + 1 = length_fld s1 then dispatch s1
            else Return (s1\<lparr>index := index s1 + 1\<rparr>)))"

definition parse_message :: "conn \<Rightarrow> byte \<Rightarrow> conn outcome" where
  "parse_message s0 b =
     (let s = s0\<lparr>fed := fed s0 @ [b]\<rparr>
      in case state s of
           HEADERB1 \<Rightarrow> parse_headerb1 s b
         | HEADERB2 \<Rightarrow> parse_headerb2 s b
         | LENGTHSHORT \<Rightarrow> parse_lengthshort s b
         | LENGTHLONG \<Rightarrow> parse_lengthlong s b
         | MASK \<Rightarrow> parse_mask s b
         | PAYLOAD \<Rightarrow> parse_payload s b)"

section \<open>The opening handshake\<close>

text \<open>
  \<^verbatim>\<open>hashlib.sha1(k).digest()\<close>, written out from FIPS 180: 32-bit words are naturals
  below \<open>2 ^ 32\<close> with the wrap-around explicit.
\<close>

definition rotl :: "nat \<Rightarrow> nat \<Rightarrow> nat" where
  "rotl n w = (w * 2 ^ n) mod 4294967296 + w div 2 ^ (32 - n)"

definition add32 :: "nat \<Rightarrow> nat \<Rightarrow> nat" where
  "add32 a b = (a + b) mod 4294967296"

definition sha1_pad :: "byte list \<Rightarrow> byte list" where
  "sha1_pad m =
     m @ [0x80] @ replicate ((119 - length m mod 64) mod 64) 0 @ be_bytes 8 (8 * length m)"

fun be_words :: "byte list \<Rightarrow> nat list" where
  "be_words (a # b # c # d # rest) =
     (((unat a * 256 + unat b) * 256 + unat c) * 256 + unat d) # be_words rest"
| "be_words _ = []"

function schedule :: "nat list \<Rightarrow> nat list" where
  "schedule ws =
     (let n = length ws
      in if 16 \<le> n \<and> n < 80
         then schedule (ws @ [rotl 1 (ws ! (n - 3) XOR ws ! (n - 8) XOR ws ! (n - 14)
                                       XOR ws ! (n - 16))])
         else ws)"
  by pat_completeness auto
termination
  by (relation "measure (\<lambda>ws. 80 - length ws)") auto

declare schedule.simps [simp del]

definition sha1_f :: "nat \<Rightarrow> nat \<Rightarrow> nat \<Rightarrow> nat \<Rightarrow> nat" where
  "sha1_f i b c d =
     (if i < 20 then (b AND c) OR ((4294967295 XOR b) AND d)
      else if i < 40 then b XOR c XOR d
      else if i < 60 then (b AND c) OR (b AND d) OR (c AND d)
      else b XOR c XOR d)"

definition sha1_k :: "nat \<Rightarrow> nat" where
  "sha1_k i =
     (if i < 20 then 0x5A827999 else if i < 40 then 0x6ED9EBA1
      else if i < 60 then 0x8F1BBCDC else 0xCA62C1D6)"

type_synonym sha_state = "nat \<times> nat \<times> nat \<times> nat \<times> nat"

fun rounds :: "nat \<Rightarrow> nat list \<Rightarrow> sha_state \<Rightarrow> sha_state" where
  "rounds i [] h = h"
| "rounds i (w # ws) (a, b, c, d, e) =
     rounds (i + 1) ws
       (add32 (add32 (add32 (add32 (rotl 5 a) (sha1_f i b c d)) e) (sha1_k i)) w,
        a, rotl 30 b, c, d)"

definition sha1_block :: "sha_state \<Rightarrow> byte list \<Rightarrow> sha_state" where
  "sha1_block h blk =
     (case (h, rounds 0 (schedule (be_words blk)) h) of
        ((h0, h1, h2, h3, h4), (a, b, c, d, e)) \<Rightarrow>
          (add32 h0 a, add32 h1 b, add32 h2 c, add32 h3 d, add32 h4 e))"

function sha1_blocks :: "sha_state \<Rightarrow> byte list \<Rightarrow> sha_state" where
  "sha1_blocks h m =
     (if length m < 64 then h else sha1_blocks (sha1_block h (take 64 m)) (drop 64 m))"
  by pat_completeness auto
termination
  by (relation "measure (\<lambda>(h, m). length m)") auto

declare sha1_blocks.simps [simp del]

definition sha1 :: "byte list \<Rightarrow> byte list" where
  "sha1 m =
     (case sha1_blocks (0x67452301, 0xEFCDAB89, 0x98BADCFE, 0x10325476, 0xC3D2E1F0)
             (sha1_pad m) of
        (h0, h1, h2, h3, h4) \<Rightarrow> concat (map (be_bytes 4) [h0, h1, h2, h3, h4]))"

text \<open>\<^verbatim>\<open>base64.b64encode(bs).decode('ascii')\<close>, from RFC 4648.\<close>

definition b64_alphabet :: string where
  "b64_alphabet = ''ABCDEFGHIJKLMNOPQRSTUVWXYZabcdefghijklmnopqrstuvwxyz0123456789+/''"

definition b64_char :: "nat \<Rightarrow> char" where
  "b64_char n = b64_alphabet ! (n mod 64)"

fun b64encode :: "byte list \<Rightarrow> string" where
  "b64encode [] = []"
| "b64encode [a] =
     (let n = unat a * 65536
      in [b64_char (n div 262144), b64_char (n div 4096), CHR ''='', CHR ''=''])"
| "b64encode [a, b] =
     (let n = unat a * 65536 + unat b * 256
      in [b64_char (n div 262144), b64_char (n div 4096), b64_char (n div 64), CHR ''=''])"
| "b64encode (a # b # c # rest) =
     (let n = unat a * 65536 + unat b * 256 + unat c
      in [b64_char (n div 262144), b64_char (n div 4096), b64_char (n div 64), b64_char n]
         @ b64encode rest)"

text \<open>
  \<^verbatim>\<open>s.encode('ascii')\<close>: \<^verbatim>\<open>UnicodeEncodeError\<close> (here \<open>None\<close>) on a character above 127.
  Header values reach the program decoded as ISO-8859-1, one character per byte, which
  is what \<open>char\<close> holds.
\<close>

definition encode_ascii :: "string \<Rightarrow> byte list option" where
  "encode_ascii s =
     (if list_all (\<lambda>c. of_char c < (128::nat)) s
      then Some (map (\<lambda>c. of_nat (of_char c)) s) else None)"

definition GUID_STR :: string where
  "GUID_STR = ''258EAFA5-E914-47DA-95CA-C5AB0DC85B11''"

definition CRLF :: string where
  "CRLF = [CHR 0x0D, CHR 0x0A]"

text \<open>\<^verbatim>\<open>HANDSHAKE_STR % {'acceptstr': k_s}\<close> and \<^verbatim>\<open>FAILED_HANDSHAKE_STR\<close>.\<close>

definition HANDSHAKE_STR :: "string \<Rightarrow> string" where
  "HANDSHAKE_STR acceptstr =
     ''HTTP/1.1 101 Switching Protocols'' @ CRLF @
     ''Upgrade: WebSocket'' @ CRLF @
     ''Connection: Upgrade'' @ CRLF @
     ''Sec-WebSocket-Accept: '' @ acceptstr @ CRLF @ CRLF"

definition FAILED_HANDSHAKE_STR :: string where
  "FAILED_HANDSHAKE_STR =
     ''HTTP/1.1 426 Upgrade Required'' @ CRLF @
     ''Upgrade: WebSocket'' @ CRLF @
     ''Connection: Upgrade'' @ CRLF @
     ''Sec-WebSocket-Version: 13'' @ CRLF @
     ''Content-Type: text/plain'' @ CRLF @ CRLF @
     ''This service requires use of the WebSocket protocol'' @ CRLF"

text \<open>
  The statements of the \<^verbatim>\<open>try\<close> block up to \<^verbatim>\<open>k_s\<close>: the accept token for the
  header value \<open>key\<close>, \<open>None\<close> when \<^verbatim>\<open>key.encode('ascii')\<close> raises.
\<close>

definition accept_token :: "string \<Rightarrow> string option" where
  "accept_token key =
     (case encode_ascii key of
        None \<Rightarrow> None
      | Some kb \<Rightarrow>
          (case encode_ascii GUID_STR of
             None \<Rightarrow> None
           | Some g \<Rightarrow> Some (b64encode (sha1 (kb @ g)))))"

section \<open>Reading from the socket\<close>

text \<open>
  What \<^verbatim>\<open>self.client.recv(n)\<close> does: it raises \<^verbatim>\<open>SSLWantReadError\<close> or
  \<^verbatim>\<open>SSLWantWriteError\<close> (\<open>NotReady\<close>), raises something else (\<open>RecvBroken\<close>), or
  returns bytes, none at all when the peer has closed.
\<close>

datatype recv_result = NotReady | RecvBroken | Received "byte list"

text \<open>
  \<^verbatim>\<open>HTTPRequest(self.headerbuffer)\<close> is the standard library's request parser and is
  taken as a parameter \<open>req\<close> of the model: on a buffer it either raises from the
  constructor, which is outside the \<^verbatim>\<open>try\<close> block (\<open>BadRequest\<close>), or yields the headers,
  of which only \<^verbatim>\<open>headers['Sec-WebSocket-Key']\<close> is read (\<open>None\<close> when absent, a value on
  which \<^verbatim>\<open>.encode\<close> raises inside the \<^verbatim>\<open>try\<close> block).
\<close>

datatype http_request = BadRequest | Headers "string option"

text \<open>\<^verbatim>\<open>b'\r\n\r\n' in self.headerbuffer\<close>.\<close>

fun starts_with :: "'a list \<Rightarrow> 'a list \<Rightarrow> bool" where
  "starts_with xs [] = True"
| "starts_with [] (p # ps) = False"
| "starts_with (x # xs) (p # ps) = (x = p \<and> starts_with xs ps)"

fun contains :: "'a list \<Rightarrow> 'a list \<Rightarrow> bool" where
  "contains [] ps = (ps = [])"
| "contains (x # xs) ps = (starts_with (x # xs) ps \<or> contains xs ps)"

definition header_end :: "byte list" where
  "header_end = [0x0D, 0x0A, 0x0D, 0x0A]"

text \<open>
  The body of \<^verbatim>\<open>if b'\r\n\r\n' in self.headerbuffer\<close>. On failure the 426 response is
  written to the socket with \<^verbatim>\<open>_send_buffer(hs, True)\<close>, which retries until the socket
  has taken everything; \<open>rej\<close> is the exception that write ends with, if any, and
  otherwise \<^verbatim>\<open>'handshake failed'\<close> is raised. \<^verbatim>\<open>connected()\<close> is the application hook
  and does not touch the connection.
\<close>

definition handshake :: "(byte list \<Rightarrow> http_request) \<Rightarrow> error option \<Rightarrow> conn \<Rightarrow> conn outcome" where
  "handshake req rej s =
     (case req (headerbuffer s) of
        BadRequest \<Rightarrow> Raise RequestCrashed s
      | Headers key \<Rightarrow>
          (case (case key of None \<Rightarrow> None | Some k \<Rightarrow> accept_token k) of
             Some k_s \<Rightarrow>
               (case encode_ascii (HANDSHAKE_STR k_s) of
                  Some hs \<Rightarrow>
                    Return (s\<lparr>sendq := sendq s @ [(BINARY, hs)], handshaked := True\<rparr>)
                | None \<Rightarrow>
                    (case rej of Some e \<Rightarrow> Raise e s | None \<Rightarrow> Raise HandshakeFailed s))
           | None \<Rightarrow>
               (case rej of Some e \<Rightarrow> Raise e s | None \<Rightarrow> Raise HandshakeFailed s)))"

text \<open>
  \<^verbatim>\<open>ord(d)\<close> in the second loop of \<^verbatim>\<open>_handle_data\<close>: \<open>d\<close> is an element of a \<^verbatim>\<open>bytes\<close>
  object, an \<^verbatim>\<open>int\<close>, and \<^verbatim>\<open>ord\<close> of an \<^verbatim>\<open>int\<close> raises \<^verbatim>\<open>TypeError\<close>.
\<close>

definition ord_of_int :: "byte \<Rightarrow> error + byte" where
  "ord_of_int d = Inl TypeError"

text \<open>\<^verbatim>\<open>WebSocket._handle_data\<close>, for one result \<open>r\<close> of \<^verbatim>\<open>recv\<close>.\<close>

definition handle_data ::
  "(byte list \<Rightarrow> http_request) \<Rightarrow> error option \<Rightarrow> conn \<Rightarrow> recv_result \<Rightarrow> conn outcome" where
  "handle_data req rej s r =
     (if handshaked s = False then
        (case r of
           NotReady \<Rightarrow> Return s
         | RecvBroken \<Rightarrow> Raise RecvFailed s
         | Received d \<Rightarrow>
             if d = [] then Raise RemoteSocketClosed s
             else
               (let s1 = s\<lparr>headerbuffer := headerbuffer s @ d\<rparr>
                in if length (headerbuffer s1) \<ge> maxheader s1 then Raise HeaderExceeded s1
                   else if contains (headerbuffer s1) header_end then handshake req rej s1
                   else Return s1))
      else
        (case r of
           NotReady \<Rightarrow> Return s
         | RecvBroken \<Rightarrow> Raise RecvFailed s
         | Received d \<Rightarrow>
             if d = [] then Raise RemoteSocketClosed s
             else
               (case for_each parse_message s d of
                  Raise e s1 \<Rightarrow> Raise e s1
                | Return s1 \<Rightarrow>
                    for_each
                      (\<lambda>s2 x. case ord_of_int x of
                                 Inl e \<Rightarrow> Raise e s2
                               | Inr v \<Rightarrow> parse_message s2 v)
                      s1 d)))"

section \<open>Writing to the socket\<close>

text \<open>
  What one call \<^verbatim>\<open>self.client.send(buf)\<close> does: \<open>Accepts k\<close>, the socket takes the
  first \<open>min k (len buf)\<close> bytes and returns that number; \<open>WouldBlock\<close>, it raises
  \<^verbatim>\<open>EAGAIN\<close>, \<^verbatim>\<open>EWOULDBLOCK\<close>, \<^verbatim>\<open>SSLWantReadError\<close> or \<^verbatim>\<open>SSLWantWriteError\<close>; \<open>Broken\<close>,
  it raises another socket error. A socket is the answer \<open>script\<close> gives to each call,
  the number of calls made and the bytes delivered so far.
\<close>

datatype send_result = Accepts nat | WouldBlock | Broken

record sock =
  script :: "nat \<Rightarrow> send_result"
  calls :: nat
  wire :: "byte list"

text \<open>
  \<^verbatim>\<open>WebSocket._send_buffer(buff)\<close> with \<^verbatim>\<open>send_all=False\<close>, as the reactor calls it. The
  argument is \<^verbatim>\<open>buff[already_sent:]\<close>; the result is the socket and either the
  exception or the returned value (\<^verbatim>\<open>None\<close> or the unsent suffix).
\<close>

function send_buffer :: "sock \<Rightarrow> byte list \<Rightarrow> sock \<times> (error + byte list option)" where
  "send_buffer k buff =
     (if buff = [] then (k, Inr None)
      else
        (case script k (calls k) of
           Accepts n \<Rightarrow>
             (let sent = min n (length buff)
              in if sent = 0 then (k\<lparr>calls := calls k + 1\<rparr>, Inl SocketBroken)
                 else send_buffer (k\<lparr>calls := calls k + 1, wire := wire k @ take sent buff\<rparr>)
                        (drop sent buff))
         | WouldBlock \<Rightarrow> (k\<lparr>calls := calls k + 1\<rparr>, Inr (Some buff))
         | Broken \<Rightarrow> (k\<lparr>calls := calls k + 1\<rparr>, Inl SocketError)))"
  by pat_completeness auto
termination
  by (relation "measure (\<lambda>(k, buff). length buff)") auto

declare send_buffer.simps [simp del]

text \<open>
  The body of \<^verbatim>\<open>for ready in w_list\<close> in \<^verbatim>\<open>WebSocketServer.handle_request\<close> for one
  writable connection with send queue \<open>q\<close>: the new queue, or the exception on which the
  reactor closes the socket and forgets the connection together with its queue.
\<close>

fun flush :: "sock \<Rightarrow> (nat \<times> byte list) list \<Rightarrow> sock \<times> (error + (nat \<times> byte list) list)" where
  "flush k [] = (k, Inr [])"
| "flush k ((opc, payload) # q) =
     (case send_buffer k payload of
        (k', Inl e) \<Rightarrow> (k', Inl e)
      | (k', Inr (Some remaining)) \<Rightarrow> (k', Inr ((opc, remaining) # q))
      | (k', Inr None) \<Rightarrow>
          if opc = CLOSE then (k', Inl ReceivedClientClose) else flush k' q)"

text \<open>\<open>n\<close> writable ticks in a row with nothing enqueued in between; an evicted
  connection is not written to again.\<close>

fun ticks :: "nat \<Rightarrow> sock \<Rightarrow> (nat \<times> byte list) list \<Rightarrow> sock \<times> (error + (nat \<times> byte list) list)" where
  "ticks 0 k q = (k, Inr q)"
| "ticks (Suc n) k q =
     (case flush k q of
        (k', Inl e) \<Rightarrow> (k', Inl e)
      | (k', Inr q') \<Rightarrow> ticks n k' q')"

section \<open>Notions used to state the properties\<close>

text \<open>
  The payload a masked frame carries: byte \<open>j\<close> of the wire payload combined with byte
  \<open>(i + j) mod 4\<close> of the mask key, \<open>i\<close> being the position of the first byte.
\<close>

fun unmask :: "byte list \<Rightarrow> nat \<Rightarrow> byte list \<Rightarrow> byte list" where
  "unmask m i [] = []"
| "unmask m i (b # bs) = (b XOR m ! (i mod 4)) # unmask m (Suc i) bs"

definition decoded :: "conn \<Rightarrow> byte list \<Rightarrow> byte list" where
  "decoded s p = (if hasmask s = True then unmask (maskarray s) 0 p else p)"

text \<open>A connection whose handshake is done and that has not yet received a frame.\<close>

definition open_conn :: conn where
  "open_conn = init_conn\<lparr>handshaked := True\<rparr>"


text \<open>A payload of \<open>n\<close> zero bytes.\<close>

definition zeros :: "nat \<Rightarrow> byte list" where
  "zeros n = replicate n 0"

section \<open>Auxiliary facts\<close>

subsection \<open>Bytes and big-endian numbers\<close>

lemma be_bytes_2: "be_bytes 2 n = [of_nat (n div 256 mod 256), of_nat (n mod 256)]"
  by (simp add: numeral_2_eq_2)








lemma length_be_bytes [simp]: "length (be_bytes k n) = k"
  by (induction k arbitrary: n) simp_all




lemmas parser_defs = parse_message_def parse_headerb1_def parse_headerb2_def
  parse_lengthshort_def parse_lengthlong_def parse_mask_def parse_payload_def
  length_complete_def dispatch_def

lemmas packet_defs = handle_packet_def opcode_check_def handle_close_frame_def
  handle_nonfinal_def handle_final_def close_def close_status_def send_message_def
  encode_frame_def pack_H_def pack_Q_def be_nat_def

subsection \<open>Loops\<close>

lemma for_each_append:
  "for_each f s (xs @ ys) =
     (case for_each f s xs of Raise e s' \<Rightarrow> Raise e s' | Return s' \<Rightarrow> for_each f s' ys)"
  by (induction xs arbitrary: s) (simp_all split: outcome.splits)

lemma for_each_single: "for_each f s [x] = f s x"
  by (cases "f s x") simp_all

lemma for_each_snoc:
  "for_each f s (xs @ [x]) =
     (case for_each f s xs of Raise e s' \<Rightarrow> Raise e s' | Return s' \<Rightarrow> f s' x)"
  unfolding for_each_append for_each_single ..

lemma outcome_case_id:
  "(case r of Return s' \<Rightarrow> Return s' | Raise e s' \<Rightarrow> Raise e s') = r"
  by (cases r) simp_all

lemma outcome_case_nil:
  "(case r of Return s' \<Rightarrow> for_each f s' [] | Raise e s' \<Rightarrow> Raise e s') = r"
  by (cases r) simp_all

lemma for_each_prefix_return:
  "for_each f s (xs @ ys) = Return s' \<Longrightarrow> \<exists>s1. for_each f s xs = Return s1"
  by (cases "for_each f s xs") (simp_all add: for_each_append)

lemma for_each_take_return:
  assumes "for_each f s d = Return s'"
  shows "raised (for_each f s (take j d)) = None"
proof -
  have "for_each f s (take j d @ drop j d) = Return s'" using assms by simp
  from for_each_prefix_return [OF this] show ?thesis by auto
qed

lemma for_each_raise_split:
  "for_each f s d = Raise e s' \<Longrightarrow>
     \<exists>k<length d. \<exists>s1. for_each f s (take k d) = Return s1 \<and> f s1 (d ! k) = Raise e s'"
proof (induction d arbitrary: s)
  case Nil
  then show ?case by simp
next
  case (Cons x xs)
  show ?case
  proof (cases "f s x")
    case (Return s1)
    with Cons.prems have "for_each f s1 xs = Raise e s'" by simp
    from Cons.IH [OF this] obtain k s2 where k: "k < length xs"
      "for_each f s1 (take k xs) = Return s2" "f s2 (xs ! k) = Raise e s'" by blast
    with Return have "Suc k < length (x # xs) \<and>
        for_each f s (take (Suc k) (x # xs)) = Return s2 \<and> f s2 ((x # xs) ! Suc k) = Raise e s'"
      by simp
    then show ?thesis by blast
  next
    case (Raise e1 s1)
    with Cons.prems have "0 < length (x # xs) \<and>
        for_each f s (take 0 (x # xs)) = Return s \<and> f s ((x # xs) ! 0) = Raise e s'"
      by simp
    then show ?thesis by blast
  qed
qed

subsection \<open>Closing\<close>

lemma close_sets_closed: "closed (st (close s status reason)) = True"
  by (simp add: close_def send_message_def split: option.splits sum.splits)

lemma close_when_closed: "closed s = True \<Longrightarrow> close s status reason = Return s"
  by (simp add: close_def)

lemma close_first_cases:
  assumes "closed s = False"
  shows "(\<exists>e. close s status reason = Raise e (s\<lparr>closed := True\<rparr>)) \<or>
         (\<exists>frame. close s status reason =
            Return (s\<lparr>sendq := sendq s @ [(CLOSE, frame)], closed := True\<rparr>))"
  using assms by (auto simp: close_def send_message_def split: option.splits sum.splits)

lemma encode_close_ok:
  assumes "length bs < 2 ^ 64"
  shows "\<exists>frame. encode_frame False CLOSE bs = Inr frame"
  using assms by (auto simp: encode_frame_def pack_H_def pack_Q_def CLOSE_def Let_def)

lemma close_first_ok:
  assumes "closed s = False" and "0 \<le> status" and "status < 65536"
    and "length (raw_bytes reason) + 2 < 2 ^ 64"
  shows "\<exists>frame. encode_frame False CLOSE (be_bytes 2 (nat status) @ raw_bytes reason) = Inr frame \<and>
           close s status reason =
             Return (s\<lparr>sendq := sendq s @ [(CLOSE, frame)], closed := True\<rparr>)"
proof -
  have "length (be_bytes 2 (nat status) @ raw_bytes reason) < 2 ^ 64"
    using assms(4) by (simp add: be_bytes_2)
  from encode_close_ok [OF this] obtain frame where
    "encode_frame False CLOSE (be_bytes 2 (nat status) @ raw_bytes reason) = Inr frame" by blast
  then show ?thesis
    using assms(1-3) by (simp add: close_def pack_H_def send_message_def)
qed

subsection \<open>The history of parsed bytes\<close>

lemma fed_close: "fed (st (close s status reason)) = fed s"
  by (simp add: close_def send_message_def split: option.splits sum.splits)

lemma fed_send_message: "fed (st (send_message s f opc d)) = fed s"
  by (simp add: send_message_def split: sum.splits)

lemma fed_handle_close_frame: "fed (st (handle_close_frame s)) = fed s"
  by (simp add: handle_close_frame_def Let_def fed_close)

lemma fed_handle_nonfinal: "fed (st (handle_nonfinal s)) = fed s"
  by (auto simp: handle_nonfinal_def Let_def split: option.splits prod.splits)

lemma fed_handle_final: "fed (st (handle_final s)) = fed s"
  by (auto simp: handle_final_def Let_def fed_send_message split: option.splits prod.splits)

lemma fed_handle_packet: "fed (st (handle_packet s)) = fed s"
  by (simp add: handle_packet_def fed_handle_close_frame fed_handle_nonfinal fed_handle_final
      split: option.splits)

lemma st_try_finally: "st (try_finally r f) = f (st r)"
  by (cases r) simp_all

lemma fed_dispatch: "fed (st (dispatch s)) = fed s"
  by (simp add: dispatch_def st_try_finally fed_handle_packet)

lemma fed_length_complete: "fed (st (length_complete s)) = fed s"
  by (simp add: length_complete_def fed_dispatch)

lemma fed_parse_message: "fed (st (parse_message s b)) = fed s @ [b]"
  by (cases "state s")
     (simp_all add: parse_message_def parse_headerb1_def parse_headerb2_def
        parse_lengthshort_def parse_lengthlong_def parse_mask_def parse_payload_def Let_def
        fed_length_complete fed_dispatch)

lemma for_each_return_fed:
  "for_each parse_message s d = Return s' \<Longrightarrow> fed s' = fed s @ d"
proof (induction d arbitrary: s)
  case Nil
  then show ?case by simp
next
  case (Cons x xs)
  show ?case
  proof (cases "parse_message s x")
    case (Return s1)
    with Cons.prems have "for_each parse_message s1 xs = Return s'" by simp
    from Cons.IH [OF this] fed_parse_message [of s x] Return show ?thesis by simp
  next
    case (Raise e s1)
    with Cons.prems show ?thesis by simp
  qed
qed

lemma second_pass_raises:
  "d \<noteq> [] \<Longrightarrow>
   for_each (\<lambda>s2 x. case ord_of_int x of Inl e \<Rightarrow> Raise e s2 | Inr v \<Rightarrow> parse_message s2 v) s1 d
     = Raise TypeError s1"
  by (cases d) (simp_all add: ord_of_int_def)

subsection \<open>The decoder, state by state\<close>

lemma length_unmask [simp]: "length (unmask m i p) = length p"
  by (induction p arbitrary: i) simp_all

lemma unmask_append:
  "unmask m i (p @ q) = unmask m i p @ unmask m (i + length p) q"
  by (induction p arbitrary: i) simp_all

lemma unmask_nth:
  "j < length p \<Longrightarrow> unmask m i p ! j = p ! j XOR m ! ((i + j) mod 4)"
proof (induction p arbitrary: i j)
  case Nil
  then show ?case by simp
next
  case (Cons b bs)
  then show ?case by (cases j) simp_all
qed

text \<open>One payload byte that does not complete the frame.\<close>

lemma payload_step:
  assumes "state s = PAYLOAD"
    and "hasmask s = True \<Longrightarrow> length (maskarray s) = 4"
    and "Suc (length (data s)) < maxpayload s"
    and "Suc (index s) \<noteq> length_fld s"
  shows "parse_message s b =
           Return (s\<lparr>data := data s @ (if hasmask s = True then [b XOR maskarray s ! (index s mod 4)] else [b]),
                     index := Suc (index s), fed := fed s @ [b]\<rparr>)"
  using assms by (simp add: parse_message_def parse_payload_def Let_def)

lemma payload_run:
  assumes "state s = PAYLOAD"
    and "hasmask s = True \<Longrightarrow> length (maskarray s) = 4"
    and "length (data s) + length p < maxpayload s"
    and "index s + length p < length_fld s"
  shows "for_each parse_message s p =
           Return (s\<lparr>data := data s @ (if hasmask s = True then unmask (maskarray s) (index s) p else p),
                     index := index s + length p, fed := fed s @ p\<rparr>)"
  using assms
proof (induction p arbitrary: s)
  case Nil
  then show ?case by simp
next
  case (Cons b bs)
  let ?s1 = "s\<lparr>data := data s @ (if hasmask s = True then [b XOR maskarray s ! (index s mod 4)] else [b]),
                index := Suc (index s), fed := fed s @ [b]\<rparr>"
  have step: "parse_message s b = Return ?s1"
    using Cons.prems by (intro payload_step) simp_all
  have "for_each parse_message ?s1 bs =
          Return (?s1\<lparr>data := data ?s1 @ (if hasmask ?s1 = True then unmask (maskarray ?s1) (index ?s1) bs else bs),
                      index := index ?s1 + length bs, fed := fed ?s1 @ bs\<rparr>)"
    using Cons.prems by (intro Cons.IH) simp_all
  with step show ?case by simp
qed

text \<open>The payload byte that completes the frame.\<close>

lemma payload_last:
  assumes "state s = PAYLOAD"
    and "hasmask s = True \<Longrightarrow> length (maskarray s) = 4"
    and "Suc (length (data s)) < maxpayload s"
    and "Suc (index s) = length_fld s"
  shows "parse_message s b =
           dispatch (s\<lparr>data := data s @ (if hasmask s = True then [b XOR maskarray s ! (index s mod 4)] else [b]),
                       fed := fed s @ [b]\<rparr>)"
  using assms
  by (auto simp: parse_message_def parse_payload_def Let_def intro!: arg_cong [where f = dispatch])

lemma payload_limit:
  assumes "state s = PAYLOAD"
    and "hasmask s = True \<Longrightarrow> length (maskarray s) = 4"
    and "Suc (length (data s)) \<ge> maxpayload s"
  shows "parse_message s b =
           Raise PayloadExceeded
             (s\<lparr>data := data s @ (if hasmask s = True then [b XOR maskarray s ! (index s mod 4)] else [b]),
                fed := fed s @ [b]\<rparr>)"
  using assms by (simp add: parse_message_def parse_payload_def Let_def)

lemma payload_complete:
  assumes "state s = PAYLOAD" and "index s = 0" and "data s = []"
    and "hasmask s = True \<Longrightarrow> length (maskarray s) = 4"
    and "length_fld s = length p" and "p \<noteq> []" and "length p < maxpayload s"
  shows "for_each parse_message s p =
           dispatch (s\<lparr>data := decoded s p, index := length p - 1, fed := fed s @ p\<rparr>)"
proof -
  from assms(6) obtain q b where p: "p = q @ [b]"
    by (cases p rule: rev_cases) auto
  let ?s1 = "s\<lparr>data := data s @ (if hasmask s = True then unmask (maskarray s) (index s) q else q),
                index := index s + length q, fed := fed s @ q\<rparr>"
  have run: "for_each parse_message s q = Return ?s1"
    using assms p by (intro payload_run) simp_all
  have last: "parse_message ?s1 b =
      dispatch (?s1\<lparr>data := data ?s1 @ (if hasmask ?s1 = True then [b XOR maskarray ?s1 ! (index ?s1 mod 4)] else [b]),
                  fed := fed ?s1 @ [b]\<rparr>)"
    using assms p by (intro payload_last) simp_all
  have "for_each parse_message s p = parse_message ?s1 b"
    unfolding p for_each_snoc run by simp
  also note last
  also have "(?s1\<lparr>data := data ?s1 @ (if hasmask ?s1 = True then [b XOR maskarray ?s1 ! (index ?s1 mod 4)] else [b]),
                  fed := fed ?s1 @ [b]\<rparr>) =
             s\<lparr>data := decoded s p, index := length p - 1, fed := fed s @ p\<rparr>"
    using assms(2,3) unfolding p by (simp add: decoded_def unmask_append)
  finally show ?thesis .
qed

lemma list_len2: "length xs = 2 \<Longrightarrow> \<exists>a b. xs = [a, b]"
  by (auto simp: numeral_2_eq_2 length_Suc_conv)

lemma list_len4: "length xs = 4 \<Longrightarrow> \<exists>a b c d. xs = [a, b, c, d]"
  by (auto simp: eval_nat_numeral length_Suc_conv)

lemma list_len8: "length xs = 8 \<Longrightarrow> \<exists>a b c d e f g h. xs = [a, b, c, d, e, f, g, h]"
  by (auto simp: eval_nat_numeral length_Suc_conv)

lemma header1:
  assumes "state s = HEADERB1" and "b1 AND 0x70 = 0"
  shows "parse_message s b1 =
           Return (s\<lparr>fin := b1 AND 0x80, data := [], opcode := unat (b1 AND 0x0F),
                     length_fld := 0, lengtharray := [], index := 0, state := HEADERB2,
                     fed := fed s @ [b1]\<rparr>)"
  using assms by (simp add: parse_message_def parse_headerb1_def Let_def)

lemma header2_short:
  assumes "state s = HEADERB2" and "unat (b2 AND 0x7F) \<le> 125"
  shows "parse_message s b2 =
           length_complete (s\<lparr>hasmask := (b2 AND 0x80 = 128), length_fld := unat (b2 AND 0x7F),
                               fed := fed s @ [b2]\<rparr>)"
  using assms
  by (auto simp: parse_message_def parse_headerb2_def Let_def
      intro!: arg_cong [where f = length_complete])

lemma header2_126:
  assumes "state s = HEADERB2" and "unat (b2 AND 0x7F) = 126" and "opcode s \<noteq> PING"
    and "length ext = 2"
  shows "for_each parse_message s (b2 # ext) =
           length_complete (s\<lparr>hasmask := (b2 AND 0x80 = 128), length_fld := be_nat ext,
                               lengtharray := ext, state := LENGTHSHORT,
                               fed := fed s @ b2 # ext\<rparr>)"
proof -
  from list_len2 [OF assms(4)] obtain x y where ext: "ext = [x, y]" by blast
  show ?thesis
    using assms(1-3) unfolding ext
    by (auto simp: parse_message_def parse_headerb2_def parse_lengthshort_def Let_def
        outcome_case_id outcome_case_nil intro!: arg_cong [where f = length_complete])
qed

lemma header2_127:
  assumes "state s = HEADERB2" and "unat (b2 AND 0x7F) = 127" and "opcode s \<noteq> PING"
    and "length ext = 8"
  shows "for_each parse_message s (b2 # ext) =
           length_complete (s\<lparr>hasmask := (b2 AND 0x80 = 128), length_fld := be_nat ext,
                               lengtharray := ext, state := LENGTHLONG,
                               fed := fed s @ b2 # ext\<rparr>)"
proof -
  from list_len8 [OF assms(4)] obtain a b c d e f g h where ext: "ext = [a, b, c, d, e, f, g, h]"
    by blast
  show ?thesis
    using assms(1-3) unfolding ext
    by (auto simp: parse_message_def parse_headerb2_def parse_lengthlong_def Let_def
        outcome_case_id outcome_case_nil intro!: arg_cong [where f = length_complete])
qed

lemma mask_phase:
  assumes "length mkey = 4" and "state s = MASK" and "maskarray s = []"
  shows "for_each parse_message s mkey =
           (if length_fld s \<le> 0
            then dispatch (s\<lparr>maskarray := mkey, fed := fed s @ mkey\<rparr>)
            else Return (s\<lparr>maskarray := mkey, data := [], state := PAYLOAD, fed := fed s @ mkey\<rparr>))"
proof -
  from list_len4 [OF assms(1)] obtain a b c d where m: "mkey = [a, b, c, d]" by blast
  show ?thesis
    using assms(2,3) unfolding m
    by (auto simp: parse_message_def parse_mask_def Let_def outcome_case_id outcome_case_nil
        intro!: arg_cong [where f = dispatch])
qed


lemma length_phase:
  assumes "state s = HEADERB2" and "lengtharray s = []"
    and "\<not> (opcode s = PING \<and> unat (b2 AND 0x7F) > 125)"
    and "(unat (b2 AND 0x7F) \<le> 125 \<and> ext = [] \<and> L = unat (b2 AND 0x7F)) \<or>
         (unat (b2 AND 0x7F) = 126 \<and> length ext = 2 \<and> L = be_nat ext) \<or>
         (unat (b2 AND 0x7F) = 127 \<and> length ext = 8 \<and> L = be_nat ext)"
  shows "for_each parse_message s (b2 # ext) =
           length_complete (s\<lparr>hasmask := (b2 AND 0x80 = 128), length_fld := L,
                               lengtharray := ext,
                               state := (if unat (b2 AND 0x7F) \<le> 125 then HEADERB2
                                         else if unat (b2 AND 0x7F) = 126 then LENGTHSHORT
                                         else LENGTHLONG),
                               fed := fed s @ b2 # ext\<rparr>)"
proof -
  consider (short) "unat (b2 AND 0x7F) \<le> 125" "ext = []" "L = unat (b2 AND 0x7F)"
    | (mid) "unat (b2 AND 0x7F) = 126" "length ext = 2" "L = be_nat ext"
    | (long) "unat (b2 AND 0x7F) = 127" "length ext = 8" "L = be_nat ext"
    using assms(4) by blast
  then show ?thesis
  proof cases
    case short
    have "for_each parse_message s (b2 # ext) = parse_message s b2"
      unfolding short(2) by (rule for_each_single)
    also have "\<dots> = length_complete (s\<lparr>hasmask := (b2 AND 0x80 = 128),
                 length_fld := unat (b2 AND 0x7F), fed := fed s @ [b2]\<rparr>)"
      using assms(1) short(1) by (rule header2_short)
    also have "s\<lparr>hasmask := (b2 AND 0x80 = 128), length_fld := unat (b2 AND 0x7F),
                  fed := fed s @ [b2]\<rparr> =
               s\<lparr>hasmask := (b2 AND 0x80 = 128), length_fld := L,
                  lengtharray := ext,
                  state := (if unat (b2 AND 0x7F) \<le> 125 then HEADERB2
                            else if unat (b2 AND 0x7F) = 126 then LENGTHSHORT
                            else LENGTHLONG),
                  fed := fed s @ b2 # ext\<rparr>"
      using assms(1,2) short by simp
    finally show ?thesis .
  next
    case mid
    from assms(3) mid(1) have "opcode s \<noteq> PING" by simp
    from header2_126 [OF assms(1) mid(1) this mid(2)] mid(1,3) show ?thesis by simp
  next
    case long
    from assms(3) long(1) have "opcode s \<noteq> PING" by simp
    from header2_127 [OF assms(1) long(1) this long(2)] long(1,3) show ?thesis by simp
  qed
qed

lemma body_phase:
  assumes "data s = []" and "index s = 0" and "length_fld s = length payload"
    and "length payload < maxpayload s"
    and "length mkey = (if hasmask s = True then 4 else 0)"
  shows "(case length_complete s of
            Raise e s' \<Rightarrow> Raise e s'
          | Return s' \<Rightarrow> for_each parse_message s' (mkey @ payload)) =
         dispatch (s\<lparr>data := (if hasmask s = True then unmask mkey 0 payload else payload),
                     maskarray := (if hasmask s = True then mkey else maskarray s),
                     index := length payload - 1,
                     state := (if payload \<noteq> [] then PAYLOAD
                               else if hasmask s = True then MASK else state s),
                     fed := fed s @ mkey @ payload\<rparr>)"
proof (cases "hasmask s = True")
  case True
  let ?sM = "s\<lparr>maskarray := [], state := MASK\<rparr>"
  have lc: "length_complete s = Return ?sM"
    using True by (simp add: length_complete_def)
  have m4: "length mkey = 4" using assms(5) True by simp
  have mp: "for_each parse_message ?sM mkey =
              (if length_fld ?sM \<le> 0
               then dispatch (?sM\<lparr>maskarray := mkey, fed := fed ?sM @ mkey\<rparr>)
               else Return (?sM\<lparr>maskarray := mkey, data := [], state := PAYLOAD,
                                fed := fed ?sM @ mkey\<rparr>))"
    by (rule mask_phase [OF m4]) simp_all
  show ?thesis
  proof (cases "payload = []")
    case e: True
    have "(case length_complete s of Raise e s' \<Rightarrow> Raise e s'
            | Return s' \<Rightarrow> for_each parse_message s' (mkey @ payload)) =
          dispatch (?sM\<lparr>maskarray := mkey, fed := fed ?sM @ mkey\<rparr>)"
      using lc mp e assms(3) by simp
    also have "?sM\<lparr>maskarray := mkey, fed := fed ?sM @ mkey\<rparr> =
               s\<lparr>data := (if hasmask s = True then unmask mkey 0 payload else payload),
                 maskarray := (if hasmask s = True then mkey else maskarray s),
                 index := length payload - 1,
                 state := (if payload \<noteq> [] then PAYLOAD
                           else if hasmask s = True then MASK else state s),
                 fed := fed s @ mkey @ payload\<rparr>"
      using True e assms(1,2) by simp
    finally show ?thesis .
  next
    case ne: False
    let ?sP = "?sM\<lparr>maskarray := mkey, data := [], state := PAYLOAD, fed := fed ?sM @ mkey\<rparr>"
    have "for_each parse_message ?sM mkey = Return ?sP"
      using mp ne assms(3) by simp
    then have "(case length_complete s of Raise e s' \<Rightarrow> Raise e s'
            | Return s' \<Rightarrow> for_each parse_message s' (mkey @ payload)) =
          for_each parse_message ?sP payload"
      using lc by (simp add: for_each_append)
    also have "\<dots> = dispatch (?sP\<lparr>data := decoded ?sP payload, index := length payload - 1,
                                   fed := fed ?sP @ payload\<rparr>)"
      using assms(2,3,4) m4 ne by (intro payload_complete) simp_all
    also have "?sP\<lparr>data := decoded ?sP payload, index := length payload - 1,
                     fed := fed ?sP @ payload\<rparr> =
               s\<lparr>data := (if hasmask s = True then unmask mkey 0 payload else payload),
                 maskarray := (if hasmask s = True then mkey else maskarray s),
                 index := length payload - 1,
                 state := (if payload \<noteq> [] then PAYLOAD
                           else if hasmask s = True then MASK else state s),
                 fed := fed s @ mkey @ payload\<rparr>"
      using True ne by (simp add: decoded_def)
    finally show ?thesis .
  qed
next
  case False
  then have mk: "mkey = []" using assms(5) by simp
  show ?thesis
  proof (cases "payload = []")
    case e: True
    have r: "(case length_complete s of Raise e s' \<Rightarrow> Raise e s'
            | Return s' \<Rightarrow> for_each parse_message s' (mkey @ payload)) = dispatch s"
      using False assms(3) unfolding e mk
      by (cases "dispatch s") (simp_all add: length_complete_def)
    have eq: "s\<lparr>data := (if hasmask s = True then unmask mkey 0 payload else payload),
                 maskarray := (if hasmask s = True then mkey else maskarray s),
                 index := length payload - 1,
                 state := (if payload \<noteq> [] then PAYLOAD
                           else if hasmask s = True then MASK else state s),
                 fed := fed s @ mkey @ payload\<rparr> = s"
      using False e mk assms(1,2) by simp
    show ?thesis unfolding eq by (rule r)
  next
    case ne: False
    let ?sP = "s\<lparr>data := [], state := PAYLOAD\<rparr>"
    have "(case length_complete s of Raise e s' \<Rightarrow> Raise e s'
            | Return s' \<Rightarrow> for_each parse_message s' (mkey @ payload)) =
          for_each parse_message ?sP payload"
      using False ne mk assms(3) by (simp add: length_complete_def)
    also have "\<dots> = dispatch (?sP\<lparr>data := decoded ?sP payload, index := length payload - 1,
                                   fed := fed ?sP @ payload\<rparr>)"
      using assms(2,3,4) False ne by (intro payload_complete) simp_all
    also have "?sP\<lparr>data := decoded ?sP payload, index := length payload - 1,
                     fed := fed ?sP @ payload\<rparr> =
               s\<lparr>data := (if hasmask s = True then unmask mkey 0 payload else payload),
                 maskarray := (if hasmask s = True then mkey else maskarray s),
                 index := length payload - 1,
                 state := (if payload \<noteq> [] then PAYLOAD
                           else if hasmask s = True then MASK else state s),
                 fed := fed s @ mkey @ payload\<rparr>"
      using False mk ne by (simp add: decoded_def)
    finally show ?thesis .
  qed
qed

text \<open>
  The state in which the parser calls \<^verbatim>\<open>_handle_packet\<close> for a frame with second header
  byte \<open>b2\<close> and payload length \<open>L\<close>: \<open>PAYLOAD\<close> when there is a payload, else the state
  that read the last header byte.
\<close>

lemma frame_decode:
  assumes "state s = HEADERB1" and "b1 AND 0x70 = 0"
    and "\<not> (unat (b1 AND 0x0F) = PING \<and> unat (b2 AND 0x7F) > 125)"
    and "(unat (b2 AND 0x7F) \<le> 125 \<and> ext = [] \<and> L = unat (b2 AND 0x7F)) \<or>
         (unat (b2 AND 0x7F) = 126 \<and> length ext = 2 \<and> L = be_nat ext) \<or>
         (unat (b2 AND 0x7F) = 127 \<and> length ext = 8 \<and> L = be_nat ext)"
    and "length mkey = (if b2 AND 0x80 = 128 then 4 else 0)"
    and "length payload = L" and "L < maxpayload s"
  shows "for_each parse_message s (b1 # b2 # ext @ mkey @ payload) =
           dispatch (s\<lparr>fin := b1 AND 0x80,
                       data := (if b2 AND 0x80 = 128 then unmask mkey 0 payload else payload),
                       opcode := unat (b1 AND 0x0F),
                       hasmask := (b2 AND 0x80 = 128),
                       maskarray := (if b2 AND 0x80 = 128 then mkey else maskarray s),
                       length_fld := L, lengtharray := ext, index := L - 1,
                       state := (if 0 < L then PAYLOAD
                                 else if b2 AND 0x80 = 128 then MASK
                                 else if unat (b2 AND 0x7F) \<le> 125 then HEADERB2
                                 else if unat (b2 AND 0x7F) = 126 then LENGTHSHORT
                                 else LENGTHLONG),
                       fed := fed s @ b1 # b2 # ext @ mkey @ payload\<rparr>)"
proof -
  let ?pst = "if unat (b2 AND 0x7F) \<le> 125 then HEADERB2
              else if unat (b2 AND 0x7F) = 126 then LENGTHSHORT else LENGTHLONG"
  let ?sA = "s\<lparr>fin := b1 AND 0x80, data := [], opcode := unat (b1 AND 0x0F),
               length_fld := 0, lengtharray := [], index := 0, state := HEADERB2,
               fed := fed s @ [b1]\<rparr>"
  have pe: "(payload \<noteq> []) = (0 < L)" using assms(6) by auto
  have A: "parse_message s b1 = Return ?sA"
    using assms(1,2) by (rule header1)
  let ?sB = "?sA\<lparr>hasmask := (b2 AND 0x80 = 128), length_fld := L,
         lengtharray := ext, state := ?pst, fed := fed ?sA @ b2 # ext\<rparr>"
  have B: "for_each parse_message ?sA (b2 # ext) = length_complete ?sB"
    using assms(3,4) by (intro length_phase) simp_all
  have C: "(case length_complete ?sB of Raise e s' \<Rightarrow> Raise e s'
        | Return s' \<Rightarrow> for_each parse_message s' (mkey @ payload)) =
      dispatch (?sB\<lparr>data := (if hasmask ?sB = True then unmask mkey 0 payload else payload),
                  maskarray := (if hasmask ?sB = True then mkey else maskarray ?sB),
                  index := length payload - 1,
                  state := (if payload \<noteq> [] then PAYLOAD
                            else if hasmask ?sB = True then MASK else state ?sB),
                  fed := fed ?sB @ mkey @ payload\<rparr>)"
    using assms(5,6,7) by (intro body_phase) simp_all
  have "for_each parse_message s (b1 # b2 # ext @ mkey @ payload) =
        for_each parse_message ?sA ((b2 # ext) @ mkey @ payload)"
    using A by simp
  also have "\<dots> = (case length_complete ?sB of Raise e s' \<Rightarrow> Raise e s'
        | Return s' \<Rightarrow> for_each parse_message s' (mkey @ payload))"
    unfolding for_each_append B ..
  also note C
  also have "?sB\<lparr>data := (if hasmask ?sB = True then unmask mkey 0 payload else payload),
                  maskarray := (if hasmask ?sB = True then mkey else maskarray ?sB),
                  index := length payload - 1,
                  state := (if payload \<noteq> [] then PAYLOAD
                            else if hasmask ?sB = True then MASK else state ?sB),
                  fed := fed ?sB @ mkey @ payload\<rparr> =
             s\<lparr>fin := b1 AND 0x80,
                       data := (if b2 AND 0x80 = 128 then unmask mkey 0 payload else payload),
                       opcode := unat (b1 AND 0x0F),
                       hasmask := (b2 AND 0x80 = 128),
                       maskarray := (if b2 AND 0x80 = 128 then mkey else maskarray s),
                       length_fld := L, lengtharray := ext, index := L - 1,
                       state := (if 0 < L then PAYLOAD
                                 else if b2 AND 0x80 = 128 then MASK
                                 else ?pst),
                       fed := fed s @ b1 # b2 # ext @ mkey @ payload\<rparr>"
    using assms(6) pe by simp
  finally show ?thesis .
qed

subsection \<open>Whole frames\<close>

lemma length_zeros [simp]: "length (zeros n) = n"
  by (simp add: zeros_def)

lemma header_phase:
  assumes "state s = HEADERB1" and "b1 AND 0x70 = 0"
    and "\<not> (unat (b1 AND 0x0F) = PING \<and> unat (b2 AND 0x7F) > 125)"
    and "(unat (b2 AND 0x7F) \<le> 125 \<and> ext = [] \<and> L = unat (b2 AND 0x7F)) \<or>
         (unat (b2 AND 0x7F) = 126 \<and> length ext = 2 \<and> L = be_nat ext) \<or>
         (unat (b2 AND 0x7F) = 127 \<and> length ext = 8 \<and> L = be_nat ext)"
    and "length mkey = (if b2 AND 0x80 = 128 then 4 else 0)"
    and "0 < L"
  shows "for_each parse_message s (b1 # b2 # ext @ mkey) =
           Return (s\<lparr>fin := b1 AND 0x80, data := [], opcode := unat (b1 AND 0x0F),
                     hasmask := (b2 AND 0x80 = 128),
                     maskarray := (if b2 AND 0x80 = 128 then mkey else maskarray s),
                     length_fld := L, lengtharray := ext, index := 0, state := PAYLOAD,
                     fed := fed s @ b1 # b2 # ext @ mkey\<rparr>)"
proof -
  let ?sA = "s\<lparr>fin := b1 AND 0x80, data := [], opcode := unat (b1 AND 0x0F),
               length_fld := 0, lengtharray := [], index := 0, state := HEADERB2,
               fed := fed s @ [b1]\<rparr>"
  have A: "parse_message s b1 = Return ?sA"
    using assms(1,2) by (rule header1)
  let ?sB = "?sA\<lparr>hasmask := (b2 AND 0x80 = 128), length_fld := L, lengtharray := ext,
         state := (if unat (b2 AND 0x7F) \<le> 125 then HEADERB2
                   else if unat (b2 AND 0x7F) = 126 then LENGTHSHORT else LENGTHLONG),
         fed := fed ?sA @ b2 # ext\<rparr>"
  have B: "for_each parse_message ?sA (b2 # ext) = length_complete ?sB"
    using assms(3,4) by (intro length_phase) simp_all
  have split: "for_each parse_message s (b1 # b2 # ext @ mkey) =
        (case length_complete ?sB of Raise e s' \<Rightarrow> Raise e s'
          | Return s' \<Rightarrow> for_each parse_message s' mkey)"
  proof -
    have "for_each parse_message s (b1 # b2 # ext @ mkey) =
          for_each parse_message ?sA ((b2 # ext) @ mkey)"
      using A by simp
    also have "\<dots> = (case length_complete ?sB of Raise e s' \<Rightarrow> Raise e s'
          | Return s' \<Rightarrow> for_each parse_message s' mkey)"
      unfolding for_each_append B ..
    finally show ?thesis .
  qed
  show ?thesis
  proof (cases "b2 AND 0x80 = 128")
    case True
    let ?sM = "?sB\<lparr>maskarray := [], state := MASK\<rparr>"
    have lc: "length_complete ?sB = Return ?sM"
      using True by (simp add: length_complete_def)
    have m4: "length mkey = 4" using assms(5) True by simp
    have "for_each parse_message ?sM mkey =
              (if length_fld ?sM \<le> 0
               then dispatch (?sM\<lparr>maskarray := mkey, fed := fed ?sM @ mkey\<rparr>)
               else Return (?sM\<lparr>maskarray := mkey, data := [], state := PAYLOAD,
                                fed := fed ?sM @ mkey\<rparr>))"
      by (rule mask_phase [OF m4]) simp_all
    then have "for_each parse_message ?sM mkey =
        Return (?sM\<lparr>maskarray := mkey, data := [], state := PAYLOAD, fed := fed ?sM @ mkey\<rparr>)"
      using assms(6) by simp
    with split lc True show ?thesis by simp
  next
    case False
    then have mk: "mkey = []" using assms(5) by simp
    have lc: "length_complete ?sB = Return (?sB\<lparr>data := [], state := PAYLOAD\<rparr>)"
      using False assms(6) by (simp add: length_complete_def)
    from split lc False mk show ?thesis by simp
  qed
qed






lemma be_bytes_1: "be_bytes 1 n = [of_nat (n mod 256)]"
  by simp

lemma zeros_Suc: "zeros (Suc n) = zeros n @ [0]"
  by (simp add: zeros_def replicate_append_same)

lemma open_conn_fields:
  "state open_conn = HEADERB1" "maxpayload open_conn = 33554432" "fed open_conn = []"
  "sendq open_conn = []" "closed open_conn = False" "handshaked open_conn = True"
  "maskarray open_conn = []" "frag_start open_conn = False"
  by (simp_all add: open_conn_def init_conn_def MAXPAYLOAD_def)

text \<open>A binary frame of exactly 32 MiB.\<close>

lemma payload_limit_frame:
  "for_each parse_message open_conn ([0x82, 127, 0, 0, 0, 0, 2, 0, 0, 0] @ zeros 33554432) =
     Raise PayloadExceeded
       (open_conn\<lparr>fin := 0x80, data := zeros 33554432, opcode := BINARY, hasmask := False,
                   length_fld := 33554432, lengtharray := [0, 0, 0, 0, 2, 0, 0, 0],
                   index := 33554431, state := PAYLOAD,
                   fed := [0x82, 127, 0, 0, 0, 0, 2, 0, 0, 0] @ zeros 33554432\<rparr>)"
proof -
  let ?ext = "[0, 0, 0, 0, 2, 0, 0, 0] :: byte list"
  let ?sP = "open_conn\<lparr>fin := 0x82 AND 0x80, data := [], opcode := unat (0x82 AND 0x0F :: byte),
                     hasmask := ((127 :: byte) AND 0x80 = 128),
                     maskarray := (if (127 :: byte) AND 0x80 = 128 then [] else maskarray open_conn),
                     length_fld := 33554432, lengtharray := ?ext, index := 0, state := PAYLOAD,
                     fed := fed open_conn @ 0x82 # 127 # ?ext @ []\<rparr>"
  have hdr: "for_each parse_message open_conn (0x82 # 127 # ?ext @ []) = Return ?sP"
    by (rule header_phase) (simp_all add: open_conn_fields PING_def be_nat_def)
  let ?sQ = "?sP\<lparr>data := data ?sP @ (if hasmask ?sP = True
                                          then unmask (maskarray ?sP) (index ?sP) (zeros 33554431)
                                          else zeros 33554431),
                     index := index ?sP + length (zeros 33554431),
                     fed := fed ?sP @ zeros 33554431\<rparr>"
  have run: "for_each parse_message ?sP (zeros 33554431) = Return ?sQ"
    by (rule payload_run) (simp_all add: open_conn_fields)
  have last: "parse_message ?sQ 0 =
      Raise PayloadExceeded
        (?sQ\<lparr>data := data ?sQ @ (if hasmask ?sQ = True
                                     then [0 XOR maskarray ?sQ ! (index ?sQ mod 4)] else [0]),
              fed := fed ?sQ @ [0]\<rparr>)"
    by (rule payload_limit) (simp_all add: open_conn_fields)
  have z: "zeros 33554432 = zeros 33554431 @ [0]"
    using zeros_Suc [of 33554431] by simp
  have "for_each parse_message open_conn ([0x82, 127, 0, 0, 0, 0, 2, 0, 0, 0] @ zeros 33554432) =
        for_each parse_message open_conn ((0x82 # 127 # ?ext @ []) @ zeros 33554431 @ [0])"
    unfolding z by simp
  also have "\<dots> = parse_message ?sQ 0"
    unfolding for_each_append hdr outcome.case run for_each_single ..
  also note last
  also have "?sQ\<lparr>data := data ?sQ @ (if hasmask ?sQ = True
                                     then [0 XOR maskarray ?sQ ! (index ?sQ mod 4)] else [0]),
              fed := fed ?sQ @ [0]\<rparr> =
       open_conn\<lparr>fin := 0x80, data := zeros 33554432, opcode := BINARY, hasmask := False,
                   length_fld := 33554432, lengtharray := [0, 0, 0, 0, 2, 0, 0, 0],
                   index := 33554431, state := PAYLOAD,
                   fed := [0x82, 127, 0, 0, 0, 0, 2, 0, 0, 0] @ zeros 33554432\<rparr>"
    unfolding z by (simp add: open_conn_fields BINARY_def)
  finally show ?thesis .
qed

subsection \<open>Ping frames\<close>

lemma pong_dispatch:
  assumes "opcode s = PING" and "fin s \<noteq> 0" and "length (data s) \<le> 125"
  shows "dispatch s =
           Return (s\<lparr>data := [], state := HEADERB1,
                     sendq := sendq s @ [(PONG, [0x8A, of_nat (length (data s))] @ data s)]\<rparr>)"
  using assms
  by (simp add: dispatch_def handle_packet_def opcode_check_def handle_final_def
      send_message_def encode_frame_def opcode_defs)

lemma ping_too_large:
  assumes "state s = HEADERB1" and "b1 AND 0x70 = 0" and "unat (b1 AND 0x0F) = PING"
    and "125 < unat (b2 AND 0x7F)"
  shows "raised (for_each parse_message s (b1 # b2 # rest)) = Some PingTooLarge"
proof -
  let ?sA = "s\<lparr>fin := b1 AND 0x80, data := [], opcode := unat (b1 AND 0x0F),
               length_fld := 0, lengtharray := [], index := 0, state := HEADERB2,
               fed := fed s @ [b1]\<rparr>"
  have A: "parse_message s b1 = Return ?sA"
    using assms(1,2) by (rule header1)
  have B: "parse_message ?sA b2 = Raise PingTooLarge (?sA\<lparr>fed := fed ?sA @ [b2]\<rparr>)"
    using assms(3,4) by (simp add: parse_message_def parse_headerb2_def Let_def)
  show ?thesis
    unfolding for_each.simps A outcome.case B by simp
qed

section \<open>Properties\<close>

subsection \<open>C1: bytes of a read reach the parser once\<close>

text \<open>
  C1, as the code has it. For a read after the handshake that returns a non-empty chunk
  \<open>d\<close>, the bytes \<^verbatim>\<open>_parse_message\<close> is called with are, in order and each once, the
  first \<open>k\<close> bytes of \<open>d\<close>, where byte \<open>k\<close> is the first byte on which the parser raises,
  or the last byte of the chunk when it raises on none: the parser raises on none of
  the first \<open>k - 1\<close> bytes, and when \<open>k\<close> is less than the length of \<open>d\<close> it raises on
  byte \<open>k\<close>. The bytes after byte \<open>k\<close> are not parsed, and no byte is parsed a second
  time.
\<close>

theorem bytes_fed_once:
  assumes "handshaked s = True" and "d \<noteq> []"
  shows "\<exists>k. 0 < k \<and> k \<le> length d \<and>
           fed (st (handle_data req rej s (Received d))) = fed s @ take k d \<and>
           (\<forall>j<k. raised (for_each parse_message s (take j d)) = None) \<and>
           (k < length d \<longrightarrow> raised (for_each parse_message s (take k d)) \<noteq> None)"
proof (cases "for_each parse_message s d")
  case (Return s1)
  then have "handle_data req rej s (Received d) = Raise TypeError s1"
    using assms by (simp add: handle_data_def second_pass_raises)
  moreover have "fed s1 = fed s @ d" using for_each_return_fed [OF Return] .
  moreover have "\<forall>j<length d. raised (for_each parse_message s (take j d)) = None"
    using for_each_take_return [OF Return] by blast
  ultimately have "0 < length d \<and> length d \<le> length d \<and>
      fed (st (handle_data req rej s (Received d))) = fed s @ take (length d) d \<and>
      (\<forall>j<length d. raised (for_each parse_message s (take j d)) = None) \<and>
      (length d < length d \<longrightarrow> raised (for_each parse_message s (take (length d) d)) \<noteq> None)"
    using assms(2) by simp
  then show ?thesis by blast
next
  case (Raise e s1)
  then have h: "handle_data req rej s (Received d) = Raise e s1"
    using assms by (simp add: handle_data_def)
  from for_each_raise_split [OF Raise] obtain k s0 where k: "k < length d"
    "for_each parse_message s (take k d) = Return s0"
    "parse_message s0 (d ! k) = Raise e s1" by blast
  have tk: "take (Suc k) d = take k d @ [d ! k]"
    using k(1) by (simp add: take_Suc_conv_app_nth)
  have "fed s0 = fed s @ take k d" using for_each_return_fed [OF k(2)] .
  moreover have "fed s1 = fed s0 @ [d ! k]"
    using fed_parse_message [of s0 "d ! k"] k(3) by simp
  ultimately have f: "fed s1 = fed s @ take (Suc k) d" using tk by simp
  have r: "for_each parse_message s (take (Suc k) d) = Raise e s1"
    unfolding tk for_each_snoc k(2) using k(3) by simp
  have p: "raised (for_each parse_message s (take j d)) = None" if "j < Suc k" for j
  proof -
    from that have "take j d = take j (take k d)" by (simp add: min_def)
    then show ?thesis using for_each_take_return [OF k(2), of j] by simp
  qed
  from h f r p k(1) have "0 < Suc k \<and> Suc k \<le> length d \<and>
      fed (st (handle_data req rej s (Received d))) = fed s @ take (Suc k) d \<and>
      (\<forall>j<Suc k. raised (for_each parse_message s (take j d)) = None) \<and>
      (Suc k < length d \<longrightarrow> raised (for_each parse_message s (take (Suc k) d)) \<noteq> None)"
    by simp
  then show ?thesis by blast
qed

text \<open>
  C1 with "each byte of that chunk": the chunk \<open>[0x70, 0x00]\<close> has a reserved bit set in
  its first byte, the parser raises there, and the second byte never reaches it.
\<close>

theorem bytes_fed_once_cex:
  "fed (st (handle_data (\<lambda>b. BadRequest) None open_conn (Received [0x70, 0x00]))) = [0x70]"
  by (simp add: handle_data_def parser_defs init_conn_def open_conn_def Let_def)

text \<open>The instance of C1 for the three bytes of a text frame carrying \<open>A\<close>.\<close>

theorem bytes_fed_once_witness:
  "handshaked open_conn = True \<and> [0x81, 0x01, 0x41] \<noteq> ([] :: byte list) \<and>
   (\<exists>k. 0 < k \<and> k \<le> length [0x81, 0x01, 0x41 :: byte] \<and>
      fed (st (handle_data (\<lambda>b. BadRequest) None open_conn (Received [0x81, 0x01, 0x41]))) =
        fed open_conn @ take k [0x81, 0x01, 0x41] \<and>
      (\<forall>j<k. raised (for_each parse_message open_conn (take j [0x81, 0x01, 0x41])) = None) \<and>
      (k < length [0x81, 0x01, 0x41 :: byte] \<longrightarrow>
         raised (for_each parse_message open_conn (take k [0x81, 0x01, 0x41])) \<noteq> None))"
proof -
  have h: "handshaked open_conn = True" by (simp add: open_conn_def)
  have n: "[0x81, 0x01, 0x41] \<noteq> ([] :: byte list)" by simp
  show ?thesis
    using h n bytes_fed_once [OF h n, of "\<lambda>b. BadRequest" None] by blast
qed


subsection \<open>C2: the status code of a received Close frame\<close>

text \<open>
  C2 at the status code 3500, which the claim keeps. \<^verbatim>\<open>_VALID_STATUS_CODES\<close> lists
  3000, 3999, 4000 and 4999 as four single values, so the unmasked Close frame with
  payload \<open>0x0D 0xAC\<close> (3500) is answered by a Close frame with status \<open>0x03 0xEA\<close>
  (1002).
\<close>

theorem close_status_3500:
  "sendq (st (for_each parse_message (open_conn) [0x88, 0x02, 0x0D, 0xAC]))
     = [(CLOSE, [0x88, 0x02, 0x03, 0xEA])]"
  by (simp add: parser_defs packet_defs opcode_defs init_conn_def open_conn_def be_bytes_2
      VALID_STATUS_CODES_def MAXPAYLOAD_def MAXHEADER_def)

subsection \<open>C3: a Close frame whose reason is not UTF-8\<close>

text \<open>
  C3 at the Close frame with status 1000 and the reason \<open>0xFF\<close>, which is not UTF-8.
  The \<^verbatim>\<open>except\<close> branch assigns status 1002 and leaves \<^verbatim>\<open>reason\<close> as the received
  bytes, so the answer is the Close frame \<open>0x88 0x03 0x03 0xEA 0xFF\<close>: status 1002
  followed by the invalid byte. The sibling path for a payload of one byte answers
  with status 1002 and an empty reason, \<open>0x88 0x02 0x03 0xEA\<close>.
\<close>

theorem close_reason_echoed:
  "\<not> utf8_strict [0xFF] \<and>
   sendq (st (for_each parse_message open_conn [0x88, 0x03, 0x03, 0xE8, 0xFF]))
     = [(CLOSE, [0x88, 0x03, 0x03, 0xEA, 0xFF])] \<and>
   sendq (st (for_each parse_message open_conn [0x88, 0x01, 0x03]))
     = [(CLOSE, [0x88, 0x02, 0x03, 0xEA])]"
  by (simp add: parser_defs packet_defs opcode_defs init_conn_def open_conn_def be_bytes_2
      VALID_STATUS_CODES_def MAXPAYLOAD_def MAXHEADER_def utf8_strict_def seq_len_def Let_def)

subsection \<open>C4: encoding a frame and decoding it again\<close>




subsection \<open>C6: the size of a ping and its pong\<close>

text \<open>
  C6, as the code has it. For a received ping frame with the reserved bits clear: if
  the seven-bit length field exceeds 125 the decoder raises \<^verbatim>\<open>'ping packet is too large'\<close>
  at the second header byte; if the frame is final (FIN set) and its payload length is
  at most 125, the frame is accepted and one pong frame carrying the same (unmasked)
  payload is appended to the send queue.
\<close>

theorem ping_pong:
  assumes "state s = HEADERB1" and "b1 AND 0x70 = 0" and "unat (b1 AND 0x0F) = PING"
  shows "(125 < unat (b2 AND 0x7F) \<longrightarrow>
            raised (for_each parse_message s (b1 # b2 # rest)) = Some PingTooLarge) \<and>
         (b1 AND 0x80 \<noteq> 0 \<and> unat (b2 AND 0x7F) = length payload \<and> length payload \<le> 125 \<and>
          length payload < maxpayload s \<and>
          length mkey = (if b2 AND 0x80 = 128 then 4 else 0) \<longrightarrow>
            for_each parse_message s (b1 # b2 # mkey @ payload) =
              Return (s\<lparr>fin := b1 AND 0x80, data := [], opcode := PING,
                        hasmask := (b2 AND 0x80 = 128),
                        maskarray := (if b2 AND 0x80 = 128 then mkey else maskarray s),
                        length_fld := length payload, lengtharray := [],
                        index := length payload - 1,
                        sendq := sendq s @
                          [(PONG, [0x8A, of_nat (length payload)] @
                                  (if b2 AND 0x80 = 128 then unmask mkey 0 payload else payload))],
                        state := HEADERB1,
                        fed := fed s @ b1 # b2 # mkey @ payload\<rparr>))"
proof (intro conjI impI)
  assume "125 < unat (b2 AND 0x7F)"
  with assms show "raised (for_each parse_message s (b1 # b2 # rest)) = Some PingTooLarge"
    by (rule ping_too_large)
next
  assume h: "b1 AND 0x80 \<noteq> 0 \<and> unat (b2 AND 0x7F) = length payload \<and> length payload \<le> 125 \<and>
          length payload < maxpayload s \<and>
          length mkey = (if b2 AND 0x80 = 128 then 4 else 0)"
  let ?d = "if b2 AND 0x80 = 128 then unmask mkey 0 payload else payload"
  let ?pst = "if 0 < length payload then PAYLOAD
              else if b2 AND 0x80 = 128 then MASK
              else if unat (b2 AND 0x7F) \<le> 125 then HEADERB2
              else if unat (b2 AND 0x7F) = 126 then LENGTHSHORT
              else LENGTHLONG"
  have ping: "\<not> (unat (b1 AND 0x0F) = PING \<and> unat (b2 AND 0x7F) > 125)" using h by simp
  have enc: "(unat (b2 AND 0x7F) \<le> 125 \<and> ([]::byte list) = [] \<and> length payload = unat (b2 AND 0x7F)) \<or>
         (unat (b2 AND 0x7F) = 126 \<and> length ([]::byte list) = 2 \<and> length payload = be_nat []) \<or>
         (unat (b2 AND 0x7F) = 127 \<and> length ([]::byte list) = 8 \<and> length payload = be_nat [])"
    using h by simp
  from h have mk: "length mkey = (if b2 AND 0x80 = 128 then 4 else 0)"
    and lp: "length payload < maxpayload s" by simp_all
  let ?sD = "s\<lparr>fin := b1 AND 0x80, data := ?d, opcode := unat (b1 AND 0x0F),
                   hasmask := (b2 AND 0x80 = 128),
                   maskarray := (if b2 AND 0x80 = 128 then mkey else maskarray s),
                   length_fld := length payload, lengtharray := [],
                   index := length payload - 1, state := ?pst,
                   fed := fed s @ b1 # b2 # [] @ mkey @ payload\<rparr>"
  have run: "for_each parse_message s (b1 # b2 # [] @ mkey @ payload) = dispatch ?sD"
    by (rule frame_decode [OF assms(1,2) ping enc mk refl lp])
  have ld: "length ?d = length payload" by simp
  have "dispatch ?sD =
          Return (?sD\<lparr>data := [], state := HEADERB1,
                     sendq := sendq ?sD @ [(PONG, [0x8A, of_nat (length (data ?sD))] @ data ?sD)]\<rparr>)"
    using assms(3) h by (intro pong_dispatch) simp_all
  also have "?sD\<lparr>data := [], state := HEADERB1,
                     sendq := sendq ?sD @ [(PONG, [0x8A, of_nat (length (data ?sD))] @ data ?sD)]\<rparr> =
             s\<lparr>fin := b1 AND 0x80, data := [], opcode := PING,
                        hasmask := (b2 AND 0x80 = 128),
                        maskarray := (if b2 AND 0x80 = 128 then mkey else maskarray s),
                        length_fld := length payload, lengtharray := [],
                        index := length payload - 1,
                        sendq := sendq s @ [(PONG, [0x8A, of_nat (length payload)] @ ?d)],
                        state := HEADERB1,
                        fed := fed s @ b1 # b2 # mkey @ payload\<rparr>"
    using assms(3) ld by simp
  finally show "for_each parse_message s (b1 # b2 # mkey @ payload) =
              Return (s\<lparr>fin := b1 AND 0x80, data := [], opcode := PING,
                        hasmask := (b2 AND 0x80 = 128),
                        maskarray := (if b2 AND 0x80 = 128 then mkey else maskarray s),
                        length_fld := length payload, lengtharray := [],
                        index := length payload - 1,
                        sendq := sendq s @ [(PONG, [0x8A, of_nat (length payload)] @ ?d)],
                        state := HEADERB1,
                        fed := fed s @ b1 # b2 # mkey @ payload\<rparr>)"
    using run by simp
qed

text \<open>
  C6 with "every received ping frame": the ping frame \<open>0x09 0x00\<close> has no payload and the
  FIN bit clear; it is rejected with \<^verbatim>\<open>'control messages can not be fragmented'\<close> and
  nothing is queued. The ping frame \<open>0xC9 0x00\<close> has a reserved bit set and is rejected at
  its first byte.
\<close>

theorem ping_pong_cex:
  "for_each parse_message open_conn [0x09, 0x00] =
     Raise ControlFragmented
       (open_conn\<lparr>opcode := PING, hasmask := False, state := HEADERB1, fed := [0x09, 0x00]\<rparr>) \<and>
   sendq (open_conn\<lparr>opcode := PING, hasmask := False, state := HEADERB1, fed := [0x09, 0x00]\<rparr>)
     = [] \<and>
   raised (for_each parse_message open_conn [0xC9, 0x00]) = Some RsvBitSet"
  by (simp add: parser_defs packet_defs opcode_defs open_conn_def init_conn_def Let_def)

text \<open>The instances of C6 for an unmasked final ping with length field 126 and with a
  payload of 125 bytes.\<close>

text \<open>The instances of C6 for an unmasked final ping with length field 126 and with a
  payload of 125 bytes.\<close>

theorem ping_pong_witness:
  "state open_conn = HEADERB1 \<and> (0x89 :: byte) AND 0x70 = 0 \<and> unat ((0x89 :: byte) AND 0x0F) = PING \<and>
   125 < unat ((0x7E :: byte) AND 0x7F) \<and>
   raised (for_each parse_message open_conn [0x89, 0x7E, 0x00, 0x7E]) = Some PingTooLarge \<and>
   (0x89 :: byte) AND 0x80 \<noteq> 0 \<and> unat ((0x7D :: byte) AND 0x7F) = length (zeros 125) \<and>
   for_each parse_message open_conn ([0x89, 0x7D] @ zeros 125) =
     Return (open_conn\<lparr>fin := 0x80, data := [], opcode := PING, hasmask := False,
               length_fld := 125, lengtharray := [], index := 124,
               sendq := [(PONG, [0x8A, 0x7D] @ zeros 125)], state := HEADERB1,
               fed := [0x89, 0x7D] @ zeros 125\<rparr>)"
proof -
  have a: "state open_conn = HEADERB1" by (rule open_conn_fields)
  have b: "(0x89 :: byte) AND 0x70 = 0" by simp
  have c: "unat ((0x89 :: byte) AND 0x0F) = PING" by (simp add: PING_def)
  have d: "125 < unat ((0x7E :: byte) AND 0x7F)" by simp
  have e: "(0x89 :: byte) AND 0x80 \<noteq> 0 \<and> unat ((0x7D :: byte) AND 0x7F) = length (zeros 125) \<and>
           length (zeros 125) \<le> 125 \<and> length (zeros 125) < maxpayload open_conn \<and>
           length ([] :: byte list) = (if (0x7D :: byte) AND 0x80 = 128 then 4 else 0)"
    by (simp add: open_conn_fields)
  from ping_pong [OF a b c, of "0x7E" "[0x00, 0x7E]"] d
  have 1: "raised (for_each parse_message open_conn [0x89, 0x7E, 0x00, 0x7E]) = Some PingTooLarge"
    by simp
  from ping_pong [OF a b c, of "0x7D" _ "zeros 125" "[]"] e
  have "for_each parse_message open_conn (0x89 # 0x7D # [] @ zeros 125) =
     Return (open_conn\<lparr>fin := 0x89 AND 0x80, data := [], opcode := PING,
               hasmask := ((0x7D :: byte) AND 0x80 = 128),
               maskarray := (if (0x7D :: byte) AND 0x80 = 128 then [] else maskarray open_conn),
               length_fld := length (zeros 125), lengtharray := [],
               index := length (zeros 125) - 1,
               sendq := sendq open_conn @
                 [(PONG, [0x8A, of_nat (length (zeros 125))] @
                         (if (0x7D :: byte) AND 0x80 = 128 then unmask [] 0 (zeros 125)
                          else zeros 125))],
               state := HEADERB1,
               fed := fed open_conn @ 0x89 # 0x7D # [] @ zeros 125\<rparr>)"
    by blast
  also have "open_conn\<lparr>fin := 0x89 AND 0x80, data := [], opcode := PING,
               hasmask := ((0x7D :: byte) AND 0x80 = 128),
               maskarray := (if (0x7D :: byte) AND 0x80 = 128 then [] else maskarray open_conn),
               length_fld := length (zeros 125), lengtharray := [],
               index := length (zeros 125) - 1,
               sendq := sendq open_conn @
                 [(PONG, [0x8A, of_nat (length (zeros 125))] @
                         (if (0x7D :: byte) AND 0x80 = 128 then unmask [] 0 (zeros 125)
                          else zeros 125))],
               state := HEADERB1,
               fed := fed open_conn @ 0x89 # 0x7D # [] @ zeros 125\<rparr> =
       open_conn\<lparr>fin := 0x80, data := [], opcode := PING, hasmask := False,
               length_fld := 125, lengtharray := [], index := 124,
               sendq := [(PONG, [0x8A, 0x7D] @ zeros 125)], state := HEADERB1,
               fed := [0x89, 0x7D] @ zeros 125\<rparr>"
    by (simp add: open_conn_fields)
  finally have 2: "for_each parse_message open_conn ([0x89, 0x7D] @ zeros 125) =
     Return (open_conn\<lparr>fin := 0x80, data := [], opcode := PING, hasmask := False,
               length_fld := 125, lengtharray := [], index := 124,
               sendq := [(PONG, [0x8A, 0x7D] @ zeros 125)], state := HEADERB1,
               fed := [0x89, 0x7D] @ zeros 125\<rparr>)" by simp
  from e have e1: "(0x89 :: byte) AND 0x80 \<noteq> 0"
    and e2: "unat ((0x7D :: byte) AND 0x7F) = length (zeros 125)" by blast+
  from a b c d 1 e1 e2 2 show ?thesis by blast
qed

subsection \<open>C7: the size limits\<close>

text \<open>
  C7 at the limits themselves. Both checks compare with \<^verbatim>\<open>>=\<close>, under the comment
  \<^verbatim>\<open>if length exceeds allowable size\<close>: a request header of exactly 65536 bytes, complete
  with its terminator and a key, and a binary frame whose payload is exactly 33554432
  bytes are both rejected, though neither exceeds its limit.
\<close>

theorem size_limit_boundary:
  "raised (handle_data (\<lambda>b. Headers (Some ''dGhlIHNhbXBsZSBub25jZQ=='')) None
             (init_conn\<lparr>headerbuffer := replicate 63488 0x41\<rparr>)
             (Received (replicate 2044 0x41 @ [0x0D, 0x0A, 0x0D, 0x0A]))) = Some HeaderExceeded \<and>
   raised (for_each parse_message open_conn ([0x82, 127, 0, 0, 0, 0, 2, 0, 0, 0] @ zeros 33554432))
     = Some PayloadExceeded"
proof -
  have 1: "raised (handle_data (\<lambda>b. Headers (Some ''dGhlIHNhbXBsZSBub25jZQ=='')) None
             (init_conn\<lparr>headerbuffer := replicate 63488 0x41\<rparr>)
             (Received (replicate 2044 0x41 @ [0x0D, 0x0A, 0x0D, 0x0A]))) = Some HeaderExceeded"
    by (simp add: handle_data_def init_conn_def MAXHEADER_def Let_def)
  have 2: "raised (for_each parse_message open_conn
             ([0x82, 127, 0, 0, 0, 0, 2, 0, 0, 0] @ zeros 33554432)) = Some PayloadExceeded"
    unfolding payload_limit_frame by simp
  from 1 2 show ?thesis by blast
qed


subsection \<open>C8: unmasking\<close>

text \<open>
  C8. In a masked frame (any of the three length encodings, mask key \<open>mkey\<close>) the
  payload bytes received so far, \<open>p\<close>, are held decoded as \<open>unmask mkey 0 p\<close>, whose byte
  at position \<open>i\<close> is byte \<open>i\<close> of \<open>p\<close> xor-ed with byte \<open>i mod 4\<close> of the key; when \<open>p\<close> is
  the whole payload the frame is dispatched with that decoded payload.
\<close>

theorem masked_payload_xor:
  assumes "state s = HEADERB1" and "b1 AND 0x70 = 0"
    and "\<not> (unat (b1 AND 0x0F) = PING \<and> unat (b2 AND 0x7F) > 125)"
    and "(unat (b2 AND 0x7F) \<le> 125 \<and> ext = [] \<and> L = unat (b2 AND 0x7F)) \<or>
         (unat (b2 AND 0x7F) = 126 \<and> length ext = 2 \<and> L = be_nat ext) \<or>
         (unat (b2 AND 0x7F) = 127 \<and> length ext = 8 \<and> L = be_nat ext)"
    and "b2 AND 0x80 = 128" and "length mkey = 4"
  shows "(length p < L \<and> length p < maxpayload s \<longrightarrow>
            for_each parse_message s (b1 # b2 # ext @ mkey @ p) =
            Return (s\<lparr>fin := b1 AND 0x80, data := unmask mkey 0 p,
                      opcode := unat (b1 AND 0x0F), hasmask := True, maskarray := mkey,
                      length_fld := L, lengtharray := ext, index := length p,
                      state := PAYLOAD, fed := fed s @ b1 # b2 # ext @ mkey @ p\<rparr>)) \<and>
         (length p = L \<and> L < maxpayload s \<longrightarrow>
            for_each parse_message s (b1 # b2 # ext @ mkey @ p) =
            dispatch (s\<lparr>fin := b1 AND 0x80, data := unmask mkey 0 p,
                        opcode := unat (b1 AND 0x0F), hasmask := True, maskarray := mkey,
                        length_fld := L, lengtharray := ext, index := L - 1,
                        state := (if 0 < L then PAYLOAD else MASK),
                        fed := fed s @ b1 # b2 # ext @ mkey @ p\<rparr>)) \<and>
         length (unmask mkey 0 p) = length p \<and>
         (\<forall>i<length p. unmask mkey 0 p ! i = p ! i XOR mkey ! (i mod 4))"
proof (intro conjI impI allI)
  assume h: "length p < L \<and> length p < maxpayload s"
  have mk: "length mkey = (if b2 AND 0x80 = 128 then 4 else 0)" using assms(5,6) by simp
  from h have pos: "0 < L" by simp
  let ?sP = "s\<lparr>fin := b1 AND 0x80, data := [], opcode := unat (b1 AND 0x0F),
                     hasmask := (b2 AND 0x80 = 128),
                     maskarray := (if b2 AND 0x80 = 128 then mkey else maskarray s),
                     length_fld := L, lengtharray := ext, index := 0, state := PAYLOAD,
                     fed := fed s @ b1 # b2 # ext @ mkey\<rparr>"
  have hdr: "for_each parse_message s (b1 # b2 # ext @ mkey) = Return ?sP"
    using assms(1-4) mk pos by (rule header_phase)
  have run: "for_each parse_message ?sP p =
      Return (?sP\<lparr>data := data ?sP @ (if hasmask ?sP = True
                                         then unmask (maskarray ?sP) (index ?sP) p else p),
                  index := index ?sP + length p, fed := fed ?sP @ p\<rparr>)"
    using h assms(5,6) by (intro payload_run) simp_all
  have "for_each parse_message s (b1 # b2 # ext @ mkey @ p) =
        for_each parse_message s ((b1 # b2 # ext @ mkey) @ p)" by simp
  also have "\<dots> = for_each parse_message ?sP p"
    unfolding for_each_append hdr by simp
  also note run
  also have "?sP\<lparr>data := data ?sP @ (if hasmask ?sP = True
                                         then unmask (maskarray ?sP) (index ?sP) p else p),
                  index := index ?sP + length p, fed := fed ?sP @ p\<rparr> =
             s\<lparr>fin := b1 AND 0x80, data := unmask mkey 0 p,
                      opcode := unat (b1 AND 0x0F), hasmask := True, maskarray := mkey,
                      length_fld := L, lengtharray := ext, index := length p,
                      state := PAYLOAD, fed := fed s @ b1 # b2 # ext @ mkey @ p\<rparr>"
    using assms(5) by simp
  finally show "for_each parse_message s (b1 # b2 # ext @ mkey @ p) =
            Return (s\<lparr>fin := b1 AND 0x80, data := unmask mkey 0 p,
                      opcode := unat (b1 AND 0x0F), hasmask := True, maskarray := mkey,
                      length_fld := L, lengtharray := ext, index := length p,
                      state := PAYLOAD, fed := fed s @ b1 # b2 # ext @ mkey @ p\<rparr>)" .
next
  assume h: "length p = L \<and> L < maxpayload s"
  have mk: "length mkey = (if b2 AND 0x80 = 128 then 4 else 0)" using assms(5,6) by simp
  from h have lp: "length p = L" and lm: "L < maxpayload s" by simp_all
  have "for_each parse_message s (b1 # b2 # ext @ mkey @ p) =
           dispatch (s\<lparr>fin := b1 AND 0x80,
                       data := (if b2 AND 0x80 = 128 then unmask mkey 0 p else p),
                       opcode := unat (b1 AND 0x0F),
                       hasmask := (b2 AND 0x80 = 128),
                       maskarray := (if b2 AND 0x80 = 128 then mkey else maskarray s),
                       length_fld := L, lengtharray := ext, index := L - 1,
                       state := (if 0 < L then PAYLOAD
                                 else if b2 AND 0x80 = 128 then MASK
                                 else if unat (b2 AND 0x7F) \<le> 125 then HEADERB2
                                 else if unat (b2 AND 0x7F) = 126 then LENGTHSHORT
                                 else LENGTHLONG),
                       fed := fed s @ b1 # b2 # ext @ mkey @ p\<rparr>)"
    by (rule frame_decode [OF assms(1-4) mk lp lm])
  also have "s\<lparr>fin := b1 AND 0x80,
                       data := (if b2 AND 0x80 = 128 then unmask mkey 0 p else p),
                       opcode := unat (b1 AND 0x0F),
                       hasmask := (b2 AND 0x80 = 128),
                       maskarray := (if b2 AND 0x80 = 128 then mkey else maskarray s),
                       length_fld := L, lengtharray := ext, index := L - 1,
                       state := (if 0 < L then PAYLOAD
                                 else if b2 AND 0x80 = 128 then MASK
                                 else if unat (b2 AND 0x7F) \<le> 125 then HEADERB2
                                 else if unat (b2 AND 0x7F) = 126 then LENGTHSHORT
                                 else LENGTHLONG),
                       fed := fed s @ b1 # b2 # ext @ mkey @ p\<rparr> =
             s\<lparr>fin := b1 AND 0x80, data := unmask mkey 0 p,
                        opcode := unat (b1 AND 0x0F), hasmask := True, maskarray := mkey,
                        length_fld := L, lengtharray := ext, index := L - 1,
                        state := (if 0 < L then PAYLOAD else MASK),
                        fed := fed s @ b1 # b2 # ext @ mkey @ p\<rparr>"
    unfolding assms(5) by simp
  finally show "for_each parse_message s (b1 # b2 # ext @ mkey @ p) =
            dispatch (s\<lparr>fin := b1 AND 0x80, data := unmask mkey 0 p,
                        opcode := unat (b1 AND 0x0F), hasmask := True, maskarray := mkey,
                        length_fld := L, lengtharray := ext, index := L - 1,
                        state := (if 0 < L then PAYLOAD else MASK),
                        fed := fed s @ b1 # b2 # ext @ mkey @ p\<rparr>)" .
next
  show "length (unmask mkey 0 p) = length p" by simp
next
  fix i assume "i < length p"
  then show "unmask mkey 0 p ! i = p ! i XOR mkey ! (i mod 4)"
    by (simp add: unmask_nth)
qed

text \<open>
  The instance of C8 for the masked binary frame with key \<open>01 02 03 04\<close> and wire payload
  \<open>00 00 00 00\<close>: it is dispatched with the payload \<open>01 02 03 04\<close>.
\<close>

theorem masked_payload_xor_witness:
  "state open_conn = HEADERB1 \<and> (0x82 :: byte) AND 0x70 = 0 \<and>
   \<not> (unat ((0x82 :: byte) AND 0x0F) = PING \<and> unat ((0x84 :: byte) AND 0x7F) > 125) \<and>
   (0x84 :: byte) AND 0x80 = 128 \<and> unat ((0x84 :: byte) AND 0x7F) = 4 \<and>
   for_each parse_message open_conn [0x82, 0x84, 0x01, 0x02, 0x03, 0x04, 0x00, 0x00, 0x00, 0x00] =
   dispatch (open_conn\<lparr>fin := 0x80, data := [0x01, 0x02, 0x03, 0x04], opcode := BINARY,
               hasmask := True, maskarray := [0x01, 0x02, 0x03, 0x04], length_fld := 4,
               lengtharray := [], index := 3, state := PAYLOAD,
               fed := [0x82, 0x84, 0x01, 0x02, 0x03, 0x04, 0x00, 0x00, 0x00, 0x00]\<rparr>)"
proof -
  have a: "state open_conn = HEADERB1" by (rule open_conn_fields)
  have b: "(0x82 :: byte) AND 0x70 = 0" by simp
  have c: "\<not> (unat ((0x82 :: byte) AND 0x0F) = PING \<and> unat ((0x84 :: byte) AND 0x7F) > 125)"
    by (simp add: PING_def)
  have d: "(unat ((0x84 :: byte) AND 0x7F) \<le> 125 \<and> ([] :: byte list) = [] \<and> 4 = unat ((0x84 :: byte) AND 0x7F)) \<or>
         (unat ((0x84 :: byte) AND 0x7F) = 126 \<and> length ([] :: byte list) = 2 \<and> 4 = be_nat []) \<or>
         (unat ((0x84 :: byte) AND 0x7F) = 127 \<and> length ([] :: byte list) = 8 \<and> 4 = be_nat [])"
    by simp
  have e: "(0x84 :: byte) AND 0x80 = 128" by simp
  have e7: "unat ((0x84 :: byte) AND 0x7F) = 4" by simp
  have f: "length [0x01, 0x02, 0x03, 0x04 :: byte] = 4" by simp
  have g: "length [0x00, 0x00, 0x00, 0x00 :: byte] = 4 \<and> 4 < maxpayload open_conn"
    by (simp add: open_conn_fields)
  have u: "unmask [0x01, 0x02, 0x03, 0x04] 0 [0x00, 0x00, 0x00, 0x00] = [0x01, 0x02, 0x03, 0x04]"
    by simp
  note t = masked_payload_xor [OF a b c d e f, of "[0x00, 0x00, 0x00, 0x00]",
      THEN conjunct2, THEN conjunct1, rule_format, OF g]
  have "for_each parse_message open_conn
          (0x82 # 0x84 # [] @ [0x01, 0x02, 0x03, 0x04] @ [0x00, 0x00, 0x00, 0x00]) =
        dispatch (open_conn\<lparr>fin := 0x82 AND 0x80,
                    data := unmask [0x01, 0x02, 0x03, 0x04] 0 [0x00, 0x00, 0x00, 0x00],
                    opcode := unat ((0x82 :: byte) AND 0x0F), hasmask := True,
                    maskarray := [0x01, 0x02, 0x03, 0x04], length_fld := 4, lengtharray := [],
                    index := 4 - 1, state := (if 0 < (4::nat) then PAYLOAD else MASK),
                    fed := fed open_conn @
                      0x82 # 0x84 # [] @ [0x01, 0x02, 0x03, 0x04] @ [0x00, 0x00, 0x00, 0x00]\<rparr>)"
    by (rule t)
  also have "open_conn\<lparr>fin := 0x82 AND 0x80,
                    data := unmask [0x01, 0x02, 0x03, 0x04] 0 [0x00, 0x00, 0x00, 0x00],
                    opcode := unat ((0x82 :: byte) AND 0x0F), hasmask := True,
                    maskarray := [0x01, 0x02, 0x03, 0x04], length_fld := 4, lengtharray := [],
                    index := 4 - 1, state := (if 0 < (4::nat) then PAYLOAD else MASK),
                    fed := fed open_conn @
                      0x82 # 0x84 # [] @ [0x01, 0x02, 0x03, 0x04] @ [0x00, 0x00, 0x00, 0x00]\<rparr> =
      open_conn\<lparr>fin := 0x80, data := [0x01, 0x02, 0x03, 0x04], opcode := BINARY,
               hasmask := True, maskarray := [0x01, 0x02, 0x03, 0x04], length_fld := 4,
               lengtharray := [], index := 3, state := PAYLOAD,
               fed := [0x82, 0x84, 0x01, 0x02, 0x03, 0x04, 0x00, 0x00, 0x00, 0x00]\<rparr>"
    unfolding u by (simp add: open_conn_fields BINARY_def)
  finally have r: "for_each parse_message open_conn
        [0x82, 0x84, 0x01, 0x02, 0x03, 0x04, 0x00, 0x00, 0x00, 0x00] =
      dispatch (open_conn\<lparr>fin := 0x80, data := [0x01, 0x02, 0x03, 0x04], opcode := BINARY,
               hasmask := True, maskarray := [0x01, 0x02, 0x03, 0x04], length_fld := 4,
               lengtharray := [], index := 3, state := PAYLOAD,
               fed := [0x82, 0x84, 0x01, 0x02, 0x03, 0x04, 0x00, 0x00, 0x00, 0x00]\<rparr>)"
    by simp
  from a b c e e7 r show ?thesis by blast
qed

subsection \<open>C10: closing twice\<close>

text \<open>
  C10. \<^verbatim>\<open>close\<close> always leaves \<^verbatim>\<open>closed\<close> set, whether it returns or raises. On a
  connection with \<^verbatim>\<open>closed = False\<close> a call with a status that fits sixteen bits appends
  exactly one Close frame to the send queue; in general the first call either raises
  with the queue unchanged or appends exactly one Close frame. Every call after a call
  of \<^verbatim>\<open>close\<close> returns with the connection, and so the queue, unchanged.
\<close>

theorem close_idempotent:
  "closed (st (close s status reason)) = True \<and>
   (closed s = False \<and> 0 \<le> status \<and> status < 65536 \<and> length (raw_bytes reason) + 2 < 2 ^ 64 \<longrightarrow>
      (\<exists>frame. encode_frame False CLOSE (be_bytes 2 (nat status) @ raw_bytes reason) = Inr frame \<and>
         close s status reason =
           Return (s\<lparr>sendq := sendq s @ [(CLOSE, frame)], closed := True\<rparr>))) \<and>
   (closed s = False \<longrightarrow>
      (\<exists>e. close s status reason = Raise e (s\<lparr>closed := True\<rparr>)) \<or>
      (\<exists>frame. close s status reason =
         Return (s\<lparr>sendq := sendq s @ [(CLOSE, frame)], closed := True\<rparr>))) \<and>
   close (st (close s status reason)) status' reason' = Return (st (close s status reason))"
  using close_first_ok [of s status reason] close_first_cases [of s status reason]
    close_when_closed [OF close_sets_closed, of s status reason status' reason']
  by (simp add: close_sets_closed)

text \<open>
  The instances of C10 on a fresh connection: the first call queues one Close frame, a
  second call changes nothing, and a call whose status cannot be packed raises and
  still marks the connection closed.
\<close>

theorem close_idempotent_witness:
  "close init_conn 1000 (PyStr []) =
     Return (init_conn\<lparr>sendq := [(CLOSE, [0x88, 0x02, 0x03, 0xE8])], closed := True\<rparr>) \<and>
   close (init_conn\<lparr>sendq := [(CLOSE, [0x88, 0x02, 0x03, 0xE8])], closed := True\<rparr>) 1001 (PyStr [])
     = Return (init_conn\<lparr>sendq := [(CLOSE, [0x88, 0x02, 0x03, 0xE8])], closed := True\<rparr>) \<and>
   close init_conn 70000 (PyStr []) = Raise StructError (init_conn\<lparr>closed := True\<rparr>)"
proof -
  have c: "closed init_conn = False \<and> (0::int) \<le> 1000 \<and> (1000::int) < 65536 \<and>
           length (raw_bytes (PyStr [])) + 2 < 2 ^ 64"
    by (simp add: init_conn_def)
  have e: "encode_frame False CLOSE (be_bytes 2 (nat 1000) @ raw_bytes (PyStr [])) = Inr [0x88, 0x02, 0x03, 0xE8]"
    by (simp add: encode_frame_def CLOSE_def be_bytes_2)
  have i: "sendq init_conn = []" by (simp add: init_conn_def)
  from close_idempotent [of init_conn 1000 "PyStr []" 1001 "PyStr []"] c e i
  have 1: "close init_conn 1000 (PyStr []) =
     Return (init_conn\<lparr>sendq := [(CLOSE, [0x88, 0x02, 0x03, 0xE8])], closed := True\<rparr>)"
    by auto
  from close_idempotent [of init_conn 1000 "PyStr []" 1001 "PyStr []"] 1
  have 2: "close (init_conn\<lparr>sendq := [(CLOSE, [0x88, 0x02, 0x03, 0xE8])], closed := True\<rparr>) 1001 (PyStr [])
     = Return (init_conn\<lparr>sendq := [(CLOSE, [0x88, 0x02, 0x03, 0xE8])], closed := True\<rparr>)"
    by simp
  have 3: "close init_conn 70000 (PyStr []) = Raise StructError (init_conn\<lparr>closed := True\<rparr>)"
    by (simp add: close_def pack_H_def init_conn_def)
  from 1 2 3 show ?thesis by blast
qed

end
